theory Spec2Isabelle
  imports Main "HOL-Library.AList"
begin

section \<open>The plan model of \<^verbatim>\<open>libsimba_eth/workflow.py\<close>\<close>

text \<open>
  The three enumerations of the module, constructor for constructor.
\<close>

datatype DependencyType = LIBRARY | CONSTRUCTOR | CONTRACT | IMPL

datatype ActionType = DEPLOY_LIBRARY | DEPLOY_CONTRACT | METHOD_CALL | DEPLOY_PROXY

datatype ActionState =
    INITED | COMPILED | COMPLETED | FAILED_COMPILE | FAILED_COMPLETE
  | FAILED_METHOD_CALL | FAILED_SET_PROXY | FAILED_DEPENDENCIES | INVALID_STATE

text \<open>
  Fields typed \<^verbatim>\<open>Any\<close> hold JSON-shaped Python values. A \<^verbatim>\<open>dict\<close> is an
  association list in insertion order.
\<close>

datatype pyval =
    PNone | PBool bool | PInt int | PStr string
  | PList "pyval list" | PDict "(string \<times> pyval) list"

type_synonym pydict = "(string \<times> pyval) list"

text \<open>
  The argument mapping of an action. Its keys are strings, except that the resolver
  stores under \<^verbatim>\<open>dep.target_arg\<close>, which is \<^verbatim>\<open>Optional[str]\<close>: the key
  \<^verbatim>\<open>None\<close> is \<open>None\<close> here.
\<close>

type_synonym pyargs = "(string option \<times> pyval) list"

text \<open>
  The exceptions that can leave the module: the two that its own code raises on a
  \<^verbatim>\<open>None\<close> or ill-shaped operand, the validators' \<^verbatim>\<open>ValueError\<close>, and whatever a
  collaborator (the executor, the file system, the web3 library) raises.
\<close>

datatype error = AttributeError | TypeError | ValueError string | Exception string

record Dependency =
  dependency_type :: DependencyType
  parent :: string
  target_arg :: "string option"
  method_name_d :: "string option"
  method_args :: "pydict option"

record Contract =
  id_c :: "string option"
  address :: "string option"
  api_name_c :: "string option"
  design_id :: "string option"
  abi :: "pydict list option"
  metadata :: "pydict option"

record Action =
  action_type :: ActionType
  contract_name :: "string option"
  code :: "string option"
  dependencies :: "Dependency list option"
  api_name :: "string option"
  args :: "pyargs option"
  action_state :: "ActionState option"
  contract :: "Contract option"
  impl_contract :: "Contract option"
  encode :: "bool option"
  error_message :: "string option"
  method_name :: "string option"
  libraries :: "(string \<times> string option) list option"

text \<open>
  \<^verbatim>\<open>Workflow.completed\<close> is a \<^verbatim>\<open>dict\<close> that the driver fills under the key
  \<^verbatim>\<open>action.contract_name\<close>, an \<^verbatim>\<open>Optional[str]\<close>: the table is a map from
  \<open>string option\<close>. The objects it holds are taken to be distinct from the pending
  actions, so that a value stands for each of them.
\<close>

record Workflow =
  app_name :: string
  org :: string
  blockchain :: string
  actions :: "Action list"
  storage :: "string option"
  completed :: "string option \<rightharpoonup> Action"

text \<open>
  Python's truth value of an \<^verbatim>\<open>Optional[str]\<close>: \<^verbatim>\<open>None\<close> and the empty string are
  false. A model object (\<^verbatim>\<open>Action\<close>, \<^verbatim>\<open>Contract\<close>) is always true, so for it
  \<^verbatim>\<open>not x\<close> is \<open>x = None\<close>.
\<close>

definition truthy :: "string option \<Rightarrow> bool" where
  "truthy s = (case s of None \<Rightarrow> False | Some t \<Rightarrow> t \<noteq> [])"

definition opt_str :: "string option \<Rightarrow> pyval" where
  "opt_str s = (case s of None \<Rightarrow> PNone | Some t \<Rightarrow> PStr t)"

section \<open>The validators\<close>

text \<open>
  \<^verbatim>\<open>Action.check_fields\<close>: the first named field whose value is false raises.
\<close>

fun check_fields :: "ActionType \<Rightarrow> (string \<times> string option) list \<Rightarrow> error + unit" where
  "check_fields action [] = Inr ()"
| "check_fields action ((f, v) # fs) =
     (if \<not> truthy v then Inl (ValueError ('' field '' @ f @ '' is required''))
      else check_fields action fs)"

definition check_by_type :: "Action \<Rightarrow> error + Action" where
  "check_by_type values =
     (case (case action_type values of
              DEPLOY_LIBRARY \<Rightarrow>
                check_fields DEPLOY_LIBRARY
                  [(''contract_name'', contract_name values), (''code'', code values)]
            | DEPLOY_CONTRACT \<Rightarrow>
                check_fields DEPLOY_CONTRACT
                  [(''contract_name'', contract_name values), (''code'', code values),
                   (''api_name'', api_name values)]
            | METHOD_CALL \<Rightarrow>
                check_fields METHOD_CALL
                  [(''method_name'', method_name values), (''api_name'', api_name values)]
            | DEPLOY_PROXY \<Rightarrow>
                check_fields DEPLOY_PROXY [(''api_name'', api_name values)]) of
        Inl e \<Rightarrow> Inl e
      | Inr _ \<Rightarrow> Inr values)"

text \<open>
  \<^verbatim>\<open>Workflow.check\<close>. The inner loop over one action's dependencies returns
  \<^verbatim>\<open>got_impl_dep\<close>; \<^verbatim>\<open>previous\<close> collects the \<^verbatim>\<open>contract_name\<close> of every earlier
  action, \<^verbatim>\<open>None\<close> included. \<^verbatim>\<open>action.dependencies\<close> is false when it is
  \<^verbatim>\<open>None\<close> or the empty list, and the loop over either does nothing: \<open>deps\<close> is
  the list, empty for \<^verbatim>\<open>None\<close>.
\<close>

fun check_deps :: "string option list \<Rightarrow> Dependency list \<Rightarrow> bool \<Rightarrow> error + bool" where
  "check_deps previous [] got_impl_dep = Inr got_impl_dep"
| "check_deps previous (dep # deps) got_impl_dep =
     (if parent dep \<noteq> [] \<and> Some (parent dep) \<notin> set previous
      then Inl (ValueError ''action depends on a action that is not defined previously'')
      else check_deps previous deps
             (if dependency_type dep = IMPL then True else got_impl_dep))"

fun check_loop :: "nat \<Rightarrow> string option list \<Rightarrow> Action list \<Rightarrow> error + unit" where
  "check_loop i previous [] = Inr ()"
| "check_loop i previous (action # rest) =
     (let deps = (case dependencies action of None \<Rightarrow> [] | Some ds \<Rightarrow> ds) in
      if i = 0 \<and> deps \<noteq> []
      then Inl (ValueError ''initial action cannot have dependencies'')
      else (case check_deps previous deps False of
              Inl e \<Rightarrow> Inl e
            | Inr got_impl_dep \<Rightarrow>
                (if action_type action = DEPLOY_PROXY \<and> \<not> got_impl_dep
                 then Inl (ValueError
                        ''action is a deploy proxy but has not dependency on an impl'')
                 else check_loop (Suc i) (previous @ [contract_name action]) rest)))"

definition check :: "Workflow \<Rightarrow> error + Workflow" where
  "check values =
     (if actions values = [] then Inl (ValueError ''No actions defined.'')
      else (case check_loop 0 [] (actions values) of
              Inl e \<Rightarrow> Inl e
            | Inr _ \<Rightarrow> Inr values))"

section \<open>The dependency resolver\<close>

text \<open>
  What the resolver reads from outside the module: the packaged proxy source (the
  result of opening and reading \<^verbatim>\<open>resources/SIMBAProxy.sol\<close>, which is not among
  the sources), the standard library's base64 encoder, and the two web3 calls of
  \<^verbatim>\<open>encode_calldata\<close>.
\<close>

record Env =
  read_proxy_file :: "error + string"
  b64encode :: "string \<Rightarrow> string"
  w3_contract :: "pydict list option \<Rightarrow> error option"
  w3_encodeABI :: "pydict list option \<Rightarrow> string option \<Rightarrow> pyval list \<Rightarrow> error + string"

definition SIMBA_PROXY :: string where
  "SIMBA_PROXY = ''SIMBAProxy''"

definition load_proxy_encoded :: "Env \<Rightarrow> error + string" where
  "load_proxy_encoded env =
     (case read_proxy_file env of
        Inl e \<Rightarrow> Inl e
      | Inr proxy_file \<Rightarrow> Inr (b64encode env proxy_file))"

text \<open>
  \<^verbatim>\<open>obj.get(key, default)\<close>: only a \<^verbatim>\<open>dict\<close> has the method. Iterating a value:
  a list gives its elements, a \<^verbatim>\<open>dict\<close> its keys, a string its characters; the
  other values are not iterable.
\<close>

definition py_get :: "pyval \<Rightarrow> string option \<Rightarrow> pyval \<Rightarrow> error + pyval" where
  "py_get obj key dflt =
     (case obj of
        PDict kvs \<Rightarrow>
          (case key of
             None \<Rightarrow> Inr dflt
           | Some k \<Rightarrow> (case map_of kvs k of None \<Rightarrow> Inr dflt | Some v \<Rightarrow> Inr v))
      | _ \<Rightarrow> Inl AttributeError)"

definition py_iter :: "pyval \<Rightarrow> error + pyval list" where
  "py_iter obj =
     (case obj of
        PList xs \<Rightarrow> Inr xs
      | PDict kvs \<Rightarrow> Inr (map (\<lambda>kv. PStr (fst kv)) kvs)
      | PStr s \<Rightarrow> Inr (map (\<lambda>c. PStr [c]) s)
      | _ \<Rightarrow> Inl TypeError)"

text \<open>
  The loop of \<^verbatim>\<open>encode_calldata\<close>:
  \<^verbatim>\<open>arg_list.append(args.get(param.get("name")))\<close>. \<^verbatim>\<open>args\<close> is the dependency's
  \<^verbatim>\<open>method_args\<close>, which may be \<^verbatim>\<open>None\<close>; a list or a \<^verbatim>\<open>dict\<close> is not hashable and
  cannot be looked up.
\<close>

fun collect_args :: "pydict option \<Rightarrow> pyval list \<Rightarrow> error + pyval list" where
  "collect_args margs [] = Inr []"
| "collect_args margs (param # params) =
     (case margs of
        None \<Rightarrow> Inl AttributeError
      | Some d \<Rightarrow>
          (case py_get param (Some ''name'') PNone of
             Inl e \<Rightarrow> Inl e
           | Inr name \<Rightarrow>
               (case (case name of
                        PStr k \<Rightarrow> Inr (case map_of d k of None \<Rightarrow> PNone | Some v \<Rightarrow> v)
                      | PList _ \<Rightarrow> Inl TypeError
                      | PDict _ \<Rightarrow> Inl TypeError
                      | _ \<Rightarrow> Inr PNone) of
                  Inl e \<Rightarrow> Inl e
                | Inr v \<Rightarrow>
                    (case collect_args margs params of
                       Inl e \<Rightarrow> Inl e
                     | Inr arg_list \<Rightarrow> Inr (v # arg_list)))))"

definition encode_calldata ::
  "Env \<Rightarrow> Contract \<Rightarrow> string option \<Rightarrow> pydict option \<Rightarrow> error + pyargs" where
  "encode_calldata env deployed_contract fn_name margs =
     (case w3_contract env (abi deployed_contract) of
        Some e \<Rightarrow> Inl e
      | None \<Rightarrow>
     (case metadata deployed_contract of
        None \<Rightarrow> Inl AttributeError
      | Some md \<Rightarrow>
     (case py_get (PDict md) (Some ''contract'') (PDict []) of
        Inl e \<Rightarrow> Inl e
      | Inr c \<Rightarrow>
     (case py_get c (Some ''methods'') (PDict []) of
        Inl e \<Rightarrow> Inl e
      | Inr methods \<Rightarrow>
     (case py_get methods fn_name (PDict []) of
        Inl e \<Rightarrow> Inl e
      | Inr m \<Rightarrow>
     (case py_get m (Some ''params'') (PList []) of
        Inl e \<Rightarrow> Inl e
      | Inr params \<Rightarrow>
     (case py_iter params of
        Inl e \<Rightarrow> Inl e
      | Inr ps \<Rightarrow>
     (case collect_args margs ps of
        Inl e \<Rightarrow> Inl e
      | Inr arg_list \<Rightarrow>
     (case w3_encodeABI env (abi deployed_contract) fn_name arg_list of
        Inl e \<Rightarrow> Inl e
      | Inr encoded \<Rightarrow>
          Inr [(Some ''_logic'', opt_str (address deployed_contract)),
               (Some ''_data'', PStr encoded)])))))))))"

definition cannot_be_resolved :: "string \<Rightarrow> string" where
  "cannot_be_resolved p = ''Dependency on contract '' @ p @ '' cannot be resolved''"

text \<open>
  The loop of \<^verbatim>\<open>Executor.dependencies\<close> over the dependencies, with the local
  \<^verbatim>\<open>libs\<close> and the action it mutates as the loop's state. The result is the action
  as the call leaves it and the pair the call returns; \<open>Inl\<close> is an exception.
  \<^verbatim>\<open>action.args[k] = v\<close> on an \<^verbatim>\<open>args\<close> that is \<^verbatim>\<open>None\<close> raises
  \<^verbatim>\<open>TypeError\<close>. \<open>AList.update\<close> is the assignment \<^verbatim>\<open>d[k] = v\<close>: a present key
  keeps its place, a new one goes last.
\<close>

fun dependencies_loop ::
  "Env \<Rightarrow> (string option \<rightharpoonup> Action) \<Rightarrow> Dependency list \<Rightarrow> (string \<times> string option) list
    \<Rightarrow> Action \<Rightarrow> error + (Action \<times> bool \<times> string option)" where
  "dependencies_loop env tbl [] libs action = Inr (action, True, None)"
| "dependencies_loop env tbl (dep # deps) libs action =
     (case tbl (Some (parent dep)) of
        None \<Rightarrow> Inr (action, False, Some (cannot_be_resolved (parent dep)))
      | Some prev_deployment \<Rightarrow>
          (case contract prev_deployment of
             None \<Rightarrow> Inr (action, False, Some (cannot_be_resolved (parent dep)))
           | Some prev_contract \<Rightarrow>
               (case dependency_type dep of
                  LIBRARY \<Rightarrow>
                    (let libs = AList.update (parent dep) (address prev_contract) libs
                     in dependencies_loop env tbl deps libs
                          (action\<lparr>libraries := Some libs\<rparr>))
                | CONSTRUCTOR \<Rightarrow>
                    (case args action of
                       None \<Rightarrow> Inl TypeError
                     | Some a \<Rightarrow>
                         dependencies_loop env tbl deps libs
                           (action\<lparr>args := Some (AList.update (target_arg dep)
                                                   (opt_str (address prev_contract)) a),
                                   libraries := Some libs\<rparr>))
                | CONTRACT \<Rightarrow>
                    dependencies_loop env tbl deps libs
                      (action\<lparr>contract := Some prev_contract, libraries := Some libs\<rparr>)
                | IMPL \<Rightarrow>
                    (case load_proxy_encoded env of
                       Inl e \<Rightarrow> Inl e
                     | Inr proxy \<Rightarrow>
                         (case encode_calldata env prev_contract (method_name_d dep)
                                 (method_args dep) of
                            Inl e \<Rightarrow> Inl e
                          | Inr calldata \<Rightarrow>
                              dependencies_loop env tbl deps libs
                                (action\<lparr>impl_contract := Some prev_contract,
                                        code := Some proxy,
                                        encode := Some False,
                                        contract_name := Some SIMBA_PROXY,
                                        args := Some calldata,
                                        libraries := Some libs\<rparr>))))))"

definition Executor_dependencies ::
  "Env \<Rightarrow> Action \<Rightarrow> (string option \<rightharpoonup> Action)
    \<Rightarrow> error + (Action \<times> bool \<times> string option)" where
  "Executor_dependencies env action tbl =
     (if action_state action = Some COMPLETED then Inr (action, False, None)
      else dependencies_loop env tbl
             (case dependencies action of None \<Rightarrow> [] | Some ds \<Rightarrow> ds) [] action)"

section \<open>The executor and the action handlers\<close>

text \<open>
  The five abstract operations of \<^verbatim>\<open>Executor\<close>, with their arguments in the order
  the handlers pass them. An operation works on the platform: it takes the
  platform's state \<open>'s\<close> and returns the new one, with either the pair
  \<^verbatim>\<open>(value, error)\<close> it returns or the exception it raises. The operations are taken
  not to mutate the objects they are handed.
\<close>

record 's Executor =
  deploy_library ::
    "string \<Rightarrow> string option \<Rightarrow> string option \<Rightarrow> string \<Rightarrow> string \<Rightarrow> bool option
      \<Rightarrow> 's \<Rightarrow> (error + (Contract option \<times> string option)) \<times> 's"
  compile_contract ::
    "string option \<Rightarrow> string option \<Rightarrow> string option
      \<Rightarrow> (string \<times> string option) list option \<Rightarrow> bool option
      \<Rightarrow> 's \<Rightarrow> (error + (Contract option \<times> string option)) \<times> 's"
  deploy_contract ::
    "Contract option \<Rightarrow> string option \<Rightarrow> string \<Rightarrow> string option \<Rightarrow> pyargs option
      \<Rightarrow> string \<Rightarrow> 's \<Rightarrow> (error + (Contract option \<times> string option)) \<times> 's"
  submit_transaction ::
    "string option \<Rightarrow> string option \<Rightarrow> pyargs option
      \<Rightarrow> 's \<Rightarrow> (error + (string option \<times> string option)) \<times> 's"
  set_proxy ::
    "Workflow \<Rightarrow> Contract option \<Rightarrow> Contract option
      \<Rightarrow> 's \<Rightarrow> (error + (string option \<times> string option)) \<times> 's"

text \<open>
  To say which operations a handler calls, the platform's state is paired with the
  log of the calls made so far; \<open>invoke\<close> is the one place where an operation runs,
  and it appends the operation's name to the log.
\<close>

datatype call =
    Call_deploy_library | Call_compile_contract | Call_deploy_contract
  | Call_submit_transaction | Call_set_proxy

record 's world =
  calls :: "call list"
  platform :: 's

definition invoke ::
  "call \<Rightarrow> ('s \<Rightarrow> (error + 'a) \<times> 's) \<Rightarrow> 's world \<Rightarrow> (error + 'a) \<times> 's world" where
  "invoke c f wd =
     (case f (platform wd) of (r, s) \<Rightarrow> (r, \<lparr>calls = calls wd @ [c], platform = s\<rparr>))"

text \<open>
  \<^verbatim>\<open>action.contract.api_name\<close> on an action without a contract raises
  \<^verbatim>\<open>AttributeError\<close> before \<^verbatim>\<open>submit_transaction\<close> is called.
\<close>

definition handle_methodcall ::
  "'s Executor \<Rightarrow> Action \<Rightarrow> Workflow \<Rightarrow> 's world \<Rightarrow> (error + (Action \<times> bool)) \<times> 's world" where
  "handle_methodcall self action workflow wd =
     (case contract action of
        None \<Rightarrow> (Inl AttributeError, wd)
      | Some c \<Rightarrow>
          (case invoke Call_submit_transaction
                  (submit_transaction self (api_name_c c) (method_name action) (args action)) wd of
             (Inl e, wd') \<Rightarrow> (Inl e, wd')
           | (Inr (txn_id, err), wd') \<Rightarrow>
               (if truthy err
                then (Inr (action\<lparr>action_state := Some FAILED_METHOD_CALL,
                                  error_message := err\<rparr>, False), wd')
                else (Inr (action\<lparr>action_state := Some COMPLETED,
                                  error_message := None\<rparr>, True), wd'))))"

definition handle_deploy_library ::
  "'s Executor \<Rightarrow> Action \<Rightarrow> Workflow \<Rightarrow> 's world \<Rightarrow> (error + (Action \<times> bool)) \<times> 's world" where
  "handle_deploy_library self action0 workflow wd =
     (let action = (if contract action0 \<noteq> None
                    then action0\<lparr>action_state := Some INVALID_STATE,
                                 error_message := Some ''Contract already exists''\<rparr>
                    else action0)
      in case invoke Call_deploy_library
                (deploy_library self (org workflow) (contract_name action) (code action)
                   (blockchain workflow) (app_name workflow) (encode action)) wd of
           (Inl e, wd') \<Rightarrow> (Inl e, wd')
         | (Inr (c, err), wd') \<Rightarrow>
             (if truthy err
              then (Inr (action\<lparr>action_state := Some FAILED_COMPLETE,
                                error_message := err\<rparr>, False), wd')
              else (Inr (action\<lparr>contract := c, action_state := Some COMPLETED,
                                error_message := None\<rparr>, True), wd')))"

text \<open>
  The deploy phase of \<^verbatim>\<open>handle_deploy_contract\<close>, from the call of
  \<^verbatim>\<open>deploy_contract\<close> on; \<open>c\<close> is the local \<^verbatim>\<open>contract\<close>. On an error the source
  assigns \<^verbatim>\<open>action.error_message = err\<close> and then
  \<^verbatim>\<open>action.error_message = None\<close>; both assignments are kept.
\<close>

definition deploy_phase ::
  "'s Executor \<Rightarrow> Contract option \<Rightarrow> Action \<Rightarrow> Workflow \<Rightarrow> 's world
    \<Rightarrow> (error + (Action \<times> bool)) \<times> 's world" where
  "deploy_phase self c action workflow wd =
     (case invoke Call_deploy_contract
             (deploy_contract self c (api_name action) (blockchain workflow)
                (storage workflow) (args action) (app_name workflow)) wd of
        (Inl e, wd') \<Rightarrow> (Inl e, wd')
      | (Inr (c', err), wd') \<Rightarrow>
          (if truthy err
           then (Inr (action\<lparr>action_state := Some FAILED_COMPLETE,
                             error_message := err,
                             error_message := None\<rparr>, False), wd')
           else (Inr (action\<lparr>contract := c', action_state := Some COMPLETED\<rparr>, True), wd')))"

text \<open>
  \<^verbatim>\<open>not contract or not contract.design_id or action.action_state == FAILED_COMPILE\<close>:
  a \<^verbatim>\<open>design_id\<close> that is \<^verbatim>\<open>None\<close> or empty is false.
\<close>

definition handle_deploy_contract ::
  "'s Executor \<Rightarrow> Action \<Rightarrow> Workflow \<Rightarrow> 's world \<Rightarrow> (error + (Action \<times> bool)) \<times> 's world" where
  "handle_deploy_contract self action workflow wd =
     (if (case contract action of None \<Rightarrow> True | Some c \<Rightarrow> \<not> truthy (design_id c))
         \<or> action_state action = Some FAILED_COMPILE
      then
        (case invoke Call_compile_contract
                (compile_contract self (contract_name action) (code action)
                   (contract_name action) (libraries action) (encode action)) wd of
           (Inl e, wd') \<Rightarrow> (Inl e, wd')
         | (Inr (c, err), wd') \<Rightarrow>
             (if truthy err
              then (Inr (action\<lparr>action_state := Some FAILED_COMPILE,
                                error_message := err\<rparr>, False), wd')
              else deploy_phase self c
                     (action\<lparr>contract := c, action_state := Some COMPILED,
                             error_message := None\<rparr>) workflow wd'))
      else deploy_phase self (contract action) action workflow wd)"

text \<open>
  \<^verbatim>\<open>handle_deploy_proxy\<close>. The action it handles is the object at position \<open>i\<close> of
  \<^verbatim>\<open>workflow.actions\<close>, so the workflow that \<^verbatim>\<open>set_proxy\<close> receives shows the
  action as mutated so far; a position outside the list leaves the list alone.
\<close>

definition set_proxy_phase ::
  "'s Executor \<Rightarrow> Action \<Rightarrow> Workflow \<Rightarrow> nat \<Rightarrow> 's world
    \<Rightarrow> (error + (Action \<times> bool)) \<times> 's world" where
  "set_proxy_phase self action workflow i wd =
     (case invoke Call_set_proxy
             (set_proxy self (workflow\<lparr>actions := (actions workflow)[i := action]\<rparr>)
                (contract action) (impl_contract action)) wd of
        (Inl e, wd') \<Rightarrow> (Inl e, wd')
      | (Inr (msg, err), wd') \<Rightarrow>
          (if truthy err
           then (Inr (action\<lparr>action_state := Some FAILED_SET_PROXY,
                             error_message := err\<rparr>, False), wd')
           else (Inr (action, True), wd')))"

definition handle_deploy_proxy ::
  "'s Executor \<Rightarrow> Action \<Rightarrow> Workflow \<Rightarrow> nat \<Rightarrow> 's world
    \<Rightarrow> (error + (Action \<times> bool)) \<times> 's world" where
  "handle_deploy_proxy self action workflow i wd =
     (if action_state action \<noteq> Some FAILED_SET_PROXY
      then
        (case handle_deploy_contract self action workflow wd of
           (Inl e, wd') \<Rightarrow> (Inl e, wd')
         | (Inr (action', carry_on), wd') \<Rightarrow>
             (if \<not> carry_on then (Inr (action', False), wd')
              else set_proxy_phase self action' workflow i wd'))
      else set_proxy_phase self action workflow i wd)"

section \<open>The driver\<close>

text \<open>
  One turn of the loop of \<^verbatim>\<open>Executor.deploy\<close> on the action at position \<open>i\<close>:
  the exception it raises, the \<^verbatim>\<open>break\<close> it takes (with the action as it leaves
  it), the \<^verbatim>\<open>continue\<close> of an action the resolver reports as already completed, or
  the fall through to \<^verbatim>\<open>count += 1\<close>. The loop variable is the list's element, so
  the handlers see the workflow with the resolved action in its place.
\<close>

datatype 's outcome =
    Raised error "'s world"
  | Stopped Action "'s world"
  | Skipped Action
  | Promoted Action "'s world"

definition deploy_step ::
  "Env \<Rightarrow> 's Executor \<Rightarrow> Workflow \<Rightarrow> nat \<Rightarrow> 's world \<Rightarrow> 's outcome" where
  "deploy_step env self workflow i wd =
     (case Executor_dependencies env (actions workflow ! i) (completed workflow) of
        Inl e \<Rightarrow> Raised e wd
      | Inr (action0, carry_on, err) \<Rightarrow>
          (if truthy err
           then Stopped (action0\<lparr>action_state := Some FAILED_DEPENDENCIES,
                                 error_message := err\<rparr>) wd
           else
             (let action = action0\<lparr>error_message := None\<rparr> in
              if \<not> carry_on then Skipped action
              else
                (let w = workflow\<lparr>actions := (actions workflow)[i := action]\<rparr> in
                 case (case action_type action of
                         DEPLOY_LIBRARY \<Rightarrow> handle_deploy_library self action w wd
                       | METHOD_CALL \<Rightarrow> handle_methodcall self action w wd
                       | DEPLOY_CONTRACT \<Rightarrow> handle_deploy_contract self action w wd
                       | DEPLOY_PROXY \<Rightarrow> handle_deploy_proxy self action w i wd) of
                   (Inl e, wd') \<Rightarrow> Raised e wd'
                 | (Inr (action', carry_on'), wd') \<Rightarrow>
                     (if \<not> carry_on' then Stopped action' wd'
                      else Promoted action' wd')))))"

text \<open>
  The loop, by position as \<^verbatim>\<open>enumerate\<close> runs it. What a turn did to its action
  is written back to the list; a promoted action goes into \<^verbatim>\<open>completed\<close> under
  its \<^verbatim>\<open>contract_name\<close>.
\<close>

function deploy_loop ::
  "Env \<Rightarrow> 's Executor \<Rightarrow> Workflow \<Rightarrow> nat \<Rightarrow> nat \<Rightarrow> 's world
    \<Rightarrow> (error + (Workflow \<times> nat)) \<times> 's world" where
  "deploy_loop env self workflow i count wd =
     (if i < length (actions workflow) then
        (case deploy_step env self workflow i wd of
           Raised e wd' \<Rightarrow> (Inl e, wd')
         | Stopped action wd' \<Rightarrow>
             (Inr (workflow\<lparr>actions := (actions workflow)[i := action]\<rparr>, count), wd')
         | Skipped action \<Rightarrow>
             deploy_loop env self
               (workflow\<lparr>actions := (actions workflow)[i := action]\<rparr>) (Suc i) count wd
         | Promoted action wd' \<Rightarrow>
             deploy_loop env self
               (workflow\<lparr>actions := (actions workflow)[i := action],
                         completed := (completed workflow)(contract_name action \<mapsto> action)\<rparr>)
               (Suc i) (Suc count) wd')
      else (Inr (workflow, count), wd))"
  by pat_completeness auto
termination
  by (relation "measure (\<lambda>(env, self, workflow, i, count, wd). length (actions workflow) - i)")
    auto

declare deploy_loop.simps [simp del]

definition deploy ::
  "Env \<Rightarrow> 's Executor \<Rightarrow> Workflow \<Rightarrow> 's world \<Rightarrow> (error + Workflow) \<times> 's world" where
  "deploy env self workflow wd =
     (case deploy_loop env self workflow 0 0 wd of
        (Inl e, wd') \<Rightarrow> (Inl e, wd')
      | (Inr (w, count), wd') \<Rightarrow> (Inr (w\<lparr>actions := drop count (actions w)\<rparr>), wd'))"

section \<open>What a pass of the driver does\<close>


text \<open>
  The handler the driver calls for an action, by the action's type, with its result
  \<^verbatim>\<open>(action, carry_on)\<close>.
\<close>

definition dispatch ::
  "'s Executor \<Rightarrow> Action \<Rightarrow> Workflow \<Rightarrow> nat \<Rightarrow> 's world
    \<Rightarrow> (error + (Action \<times> bool)) \<times> 's world" where
  "dispatch self action w i wd =
     (case action_type action of
        DEPLOY_LIBRARY \<Rightarrow> handle_deploy_library self action w wd
      | METHOD_CALL \<Rightarrow> handle_methodcall self action w wd
      | DEPLOY_CONTRACT \<Rightarrow> handle_deploy_contract self action w wd
      | DEPLOY_PROXY \<Rightarrow> handle_deploy_proxy self action w i wd)"

text \<open>
  \<open>promotes env self w i wd ps stopped wd'\<close>: from position \<open>i\<close> of the workflow
  \<open>w\<close> on, \<open>ps\<close> are the actions, one after the other, that the resolver let
  run (\<^verbatim>\<open>(True, err)\<close> with a false \<^verbatim>\<open>err\<close>) and whose handler returned
  \<^verbatim>\<open>carry_on = True\<close>, each as its handler returned it, written back to the list
  and entered into \<^verbatim>\<open>completed\<close> under its \<^verbatim>\<open>contract_name\<close> before the next
  turn. After them the list is at its end (\<open>stopped = None\<close>), or the resolver
  reports an error for the next action (rule \<open>unresolved\<close>: the action is the
  resolver's with \<^verbatim>\<open>FAILED_DEPENDENCIES\<close> and the message), or the next action's
  handler returned \<^verbatim>\<open>carry_on = False\<close> (rule \<open>refused\<close>: the action is the
  one the handler returned). \<open>wd'\<close> is the platform after the last turn.
\<close>

inductive promotes ::
  "Env \<Rightarrow> 's Executor \<Rightarrow> Workflow \<Rightarrow> nat \<Rightarrow> 's world \<Rightarrow> Action list \<Rightarrow> Action option
    \<Rightarrow> 's world \<Rightarrow> bool"
  for env :: Env and self :: "'s Executor" where
  finished: "length (actions w) \<le> i \<Longrightarrow> promotes env self w i wd [] None wd"
| unresolved:
    "i < length (actions w)
     \<Longrightarrow> Executor_dependencies env (actions w ! i) (completed w) = Inr (a0, carry_on, err)
     \<Longrightarrow> truthy err
     \<Longrightarrow> promotes env self w i wd []
           (Some (a0\<lparr>action_state := Some FAILED_DEPENDENCIES, error_message := err\<rparr>)) wd"
| refused:
    "i < length (actions w)
     \<Longrightarrow> Executor_dependencies env (actions w ! i) (completed w) = Inr (a0, True, err)
     \<Longrightarrow> \<not> truthy err
     \<Longrightarrow> dispatch self (a0\<lparr>error_message := None\<rparr>)
           (w\<lparr>actions := (actions w)[i := a0\<lparr>error_message := None\<rparr>]\<rparr>) i wd
         = (Inr (a, False), wd')
     \<Longrightarrow> promotes env self w i wd [] (Some a) wd'"
| promoted:
    "i < length (actions w)
     \<Longrightarrow> Executor_dependencies env (actions w ! i) (completed w) = Inr (a0, True, err)
     \<Longrightarrow> \<not> truthy err
     \<Longrightarrow> dispatch self (a0\<lparr>error_message := None\<rparr>)
           (w\<lparr>actions := (actions w)[i := a0\<lparr>error_message := None\<rparr>]\<rparr>) i wd
         = (Inr (a, True), wd1)
     \<Longrightarrow> promotes env self
           (w\<lparr>actions := (actions w)[i := a],
              completed := (completed w)(contract_name a \<mapsto> a)\<rparr>) (Suc i) wd1 ps st wd'
     \<Longrightarrow> promotes env self w i wd (a # ps) st wd'"



text \<open>
  The conditions under which no turn raises. An operation returns when it yields a
  pair and not an exception; the platform keeps a property \<open>P\<close> of contract records
  when the records it hands out have it, \<^verbatim>\<open>deploy_contract\<close> given a record that
  has it.
\<close>

definition returns :: "('s \<Rightarrow> (error + 'a) \<times> 's) \<Rightarrow> bool" where
  "returns f = (\<forall>s. \<exists>v s'. f s = (Inr v, s'))"

definition executor_returns :: "'s Executor \<Rightarrow> bool" where
  "executor_returns self =
     ((\<forall>a b c d e f. returns (deploy_library self a b c d e f))
      \<and> (\<forall>a b c d e. returns (compile_contract self a b c d e))
      \<and> (\<forall>a b c d e f. returns (deploy_contract self a b c d e f))
      \<and> (\<forall>a b c. returns (submit_transaction self a b c))
      \<and> (\<forall>a b c. returns (set_proxy self a b c)))"

definition executor_keeps :: "(Contract \<Rightarrow> bool) \<Rightarrow> 's Executor \<Rightarrow> bool" where
  "executor_keeps P self =
     ((\<forall>a b c d e f s r err s'.
          deploy_library self a b c d e f s = (Inr (Some r, err), s') \<longrightarrow> P r)
      \<and> (\<forall>a b c d e s r err s'.
          compile_contract self a b c d e s = (Inr (Some r, err), s') \<longrightarrow> P r)
      \<and> (\<forall>a b c d e f s r err s'.
          deploy_contract self a b c d e f s = (Inr (Some r, err), s')
          \<and> (\<forall>x. a = Some x \<longrightarrow> P x) \<longrightarrow> P r))"

definition table_keeps :: "(Contract \<Rightarrow> bool) \<Rightarrow> (string option \<rightharpoonup> Action) \<Rightarrow> bool" where
  "table_keeps P tbl = (\<forall>k p c. tbl k = Some p \<and> contract p = Some c \<longrightarrow> P c)"

definition deps_of :: "Action \<Rightarrow> Dependency list" where
  "deps_of a = (case dependencies a of None \<Rightarrow> [] | Some ds \<Rightarrow> ds)"

text \<open>
  An action on which neither the resolver nor its handler raises, whatever the table
  of completed actions with property \<open>P\<close> holds: its contract record, if any, has
  \<open>P\<close>; a method call has a contract record or a \<^verbatim>\<open>CONTRACT\<close> dependency that
  brings one; an action with a \<^verbatim>\<open>CONSTRUCTOR\<close> dependency has an \<^verbatim>\<open>args\<close>
  mapping; and for an \<^verbatim>\<open>IMPL\<close> dependency the proxy source loads and the call data
  of every record with \<open>P\<close> encodes.
\<close>

definition safe_action :: "Env \<Rightarrow> (Contract \<Rightarrow> bool) \<Rightarrow> Action \<Rightarrow> bool" where
  "safe_action env P a =
     ((\<forall>c. contract a = Some c \<longrightarrow> P c)
      \<and> (action_type a = METHOD_CALL
           \<longrightarrow> contract a \<noteq> None \<or> (\<exists>d \<in> set (deps_of a). dependency_type d = CONTRACT))
      \<and> ((\<exists>d \<in> set (deps_of a). dependency_type d = CONSTRUCTOR) \<longrightarrow> args a \<noteq> None)
      \<and> (\<forall>d \<in> set (deps_of a). dependency_type d = IMPL
           \<longrightarrow> (\<exists>proxy. load_proxy_encoded env = Inr proxy)
               \<and> (\<forall>c. P c \<longrightarrow> (\<exists>calldata. encode_calldata env c (method_name_d d)
                                                     (method_args d) = Inr calldata))))"

section \<open>Sample plans and a sample platform\<close>

text \<open>
  \<^verbatim>\<open>Contract()\<close> and \<^verbatim>\<open>Action(action_type=t)\<close> with the defaults the classes
  declare, and a workflow over a list of actions with an empty \<^verbatim>\<open>completed\<close>.
\<close>

definition new_Contract :: Contract where
  "new_Contract =
     \<lparr>id_c = None, address = None, api_name_c = None, design_id = None, abi = None,
      metadata = None\<rparr>"

definition new_Action :: "ActionType \<Rightarrow> Action" where
  "new_Action t =
     \<lparr>action_type = t, contract_name = None, code = None, dependencies = None,
      api_name = None, args = None, action_state = Some INITED, contract = None,
      impl_contract = None, encode = Some True, error_message = None, method_name = None,
      libraries = None\<rparr>"

definition new_Dependency :: "DependencyType \<Rightarrow> string \<Rightarrow> Dependency" where
  "new_Dependency t p =
     \<lparr>dependency_type = t, parent = p, target_arg = None, method_name_d = None,
      method_args = None\<rparr>"

definition new_Workflow :: "Action list \<Rightarrow> Workflow" where
  "new_Workflow as =
     \<lparr>app_name = ''myApp'', org = ''MyOrg'', blockchain = ''Quorum'', actions = as,
      storage = None, completed = Map.empty\<rparr>"

definition library_action :: "string \<Rightarrow> Action" where
  "library_action n = (new_Action DEPLOY_LIBRARY)\<lparr>contract_name := Some n, code := Some ''hello world''\<rparr>"

definition contract_action :: "string \<Rightarrow> Action" where
  "contract_action n =
     (new_Action DEPLOY_CONTRACT)\<lparr>contract_name := Some n, code := Some ''hello world'',
                                  api_name := Some ''my-api''\<rparr>"

definition proxy_action :: "string \<Rightarrow> Action" where
  "proxy_action impl =
     (new_Action DEPLOY_PROXY)\<lparr>api_name := Some ''my-proxy'',
        dependencies := Some [(new_Dependency IMPL impl)\<lparr>method_name_d := Some ''initialize'',
                                 method_args := Some [(''symbol'', PStr ''MNT''),
                                                      (''name'', PStr ''My NFT'')]\<rparr>]\<rparr>"

definition call_action :: Action where
  "call_action =
     (new_Action METHOD_CALL)\<lparr>method_name := Some ''mint'', api_name := Some ''my-api''\<rparr>"

text \<open>
  A platform in the manner of the test suite's executor: its state counts the calls
  of the operations, every operation succeeds, and a contract's address is made from
  the count.
\<close>

definition address_of :: "nat \<Rightarrow> string" where
  "address_of n = ''0x'' @ replicate n CHR ''1''"

definition test_executor :: "nat Executor" where
  "test_executor =
     \<lparr>deploy_library = (\<lambda>org' lib_name code' blockchain' app_name' encode' n.
        (Inr (Some (new_Contract\<lparr>address := Some (address_of n), abi := Some [],
                                 metadata := Some []\<rparr>), None), Suc n)),
      compile_contract = (\<lambda>name code' target_contract libraries' encode' n.
        (Inr (Some (new_Contract\<lparr>design_id := Some ''design'', abi := Some [],
                                 metadata := Some []\<rparr>), None), Suc n)),
      deploy_contract = (\<lambda>c api_name' blockchain' storage' args' app_name' n.
        (Inr (map_option (\<lambda>c. c\<lparr>address := Some (address_of n),
                                   api_name_c := api_name'\<rparr>) c, None), Suc n)),
      submit_transaction = (\<lambda>api_name' method args' n. (Inr (Some ''txn'', None), Suc n)),
      set_proxy = (\<lambda>workflow proxy_contract impl_contract' n. (Inr (Some ''OK'', None), Suc n))\<rparr>"

text \<open>The same platform with a \<^verbatim>\<open>deploy_contract\<close> that reports an error.\<close>

definition failing_executor :: "nat Executor" where
  "failing_executor =
     test_executor\<lparr>deploy_contract := (\<lambda>c api_name' blockchain' storage' args' app_name' n.
        (Inr (None, Some ''Could not deploy contract''), Suc n))\<rparr>"

text \<open>
  An environment whose \<^verbatim>\<open>encodeABI\<close> shows what it was given: the method name
  followed by the string arguments, each after a colon.
\<close>

definition echo_arg :: "pyval \<Rightarrow> string" where
  "echo_arg v = (case v of PStr s \<Rightarrow> '':'' @ s | _ \<Rightarrow> '':?'')"

definition test_env :: Env where
  "test_env =
     \<lparr>read_proxy_file = Inr ''contract SIMBAProxy {}'',
      b64encode = (\<lambda>s. ''b64:'' @ s),
      w3_contract = (\<lambda>a. None),
      w3_encodeABI = (\<lambda>a fn_name arg_list.
        Inr (''0x'' @ (case fn_name of None \<Rightarrow> [] | Some n \<Rightarrow> n)
               @ concat (map echo_arg arg_list)))\<rparr>"

text \<open>
  A completed implementation whose metadata names two parameters of
  \<^verbatim>\<open>initialize\<close>, and the table that holds it.
\<close>

definition impl_record :: Contract where
  "impl_record =
     new_Contract\<lparr>address := Some ''0x1'', design_id := Some ''design'', abi := Some [],
       metadata := Some [(''contract'', PDict [(''methods'', PDict [(''initialize'',
         PDict [(''params'', PList [PDict [(''name'', PStr ''name''),
                                           (''type'', PStr ''string'')],
                                    PDict [(''name'', PStr ''symbol''),
                                           (''type'', PStr ''string'')]])])])])]\<rparr>"

definition impl_table :: "string option \<rightharpoonup> Action" where
  "impl_table =
     [Some ''Impl'' \<mapsto> (contract_action ''Impl'')\<lparr>contract := Some impl_record,
                                                  action_state := Some COMPLETED\<rparr>]"

definition world0 :: "nat world" where
  "world0 = \<lparr>calls = [], platform = 0\<rparr>"

section \<open>Unfolding the samples and the handlers\<close>

lemmas sample_defs =
  new_Contract_def new_Action_def new_Dependency_def new_Workflow_def library_action_def
  contract_action_def proxy_action_def call_action_def address_of_def test_executor_def
  failing_executor_def test_env_def world0_def impl_record_def impl_table_def echo_arg_def

lemmas handler_defs =
  handle_methodcall_def handle_deploy_library_def handle_deploy_contract_def
  handle_deploy_proxy_def deploy_phase_def set_proxy_phase_def invoke_def truthy_def

lemmas driver_defs =
  deploy_def deploy_loop.simps deploy_step_def Executor_dependencies_def

section \<open>Lemmas on the resolver\<close>

lemma dependencies_loop_step:
  "(\<exists>libs' a'. \<forall>ds. dependencies_loop env tbl (d # ds) libs a
                       = dependencies_loop env tbl ds libs' a')
   \<or> (\<exists>e. \<forall>ds. dependencies_loop env tbl (d # ds) libs a = Inl e)
   \<or> (\<exists>a' m. \<forall>ds. dependencies_loop env tbl (d # ds) libs a = Inr (a', False, Some m))"
proof (cases "tbl (Some (parent d))")
  case None
  then show ?thesis by simp
next
  case (Some p)
  show ?thesis
  proof (cases "contract p")
    case None
    with Some show ?thesis by simp
  next
    case pc: (Some prev_contract)
    show ?thesis
    proof (cases "dependency_type d")
      case LIBRARY
      with Some pc show ?thesis by (simp add: Let_def) blast
    next
      case CONSTRUCTOR
      with Some pc show ?thesis by (cases "args a") (simp, simp, blast)
    next
      case CONTRACT
      with Some pc show ?thesis by simp blast
    next
      case IMPL
      show ?thesis
      proof (cases "load_proxy_encoded env")
        case (Inl e)
        with Some pc IMPL show ?thesis by simp
      next
        case (Inr proxy)
        show ?thesis
        proof (cases "encode_calldata env prev_contract (method_name_d d) (method_args d)")
          case (Inl e)
          with Some pc IMPL Inr show ?thesis by simp
        next
          case cd: (Inr calldata)
          with Some pc IMPL Inr show ?thesis by simp blast
        qed
      qed
    qed
  qed
qed

lemma dependencies_loop_append:
  "dependencies_loop env tbl ds libs a = Inr (a1, True, None)
   \<Longrightarrow> \<exists>libs1. \<forall>ds'. dependencies_loop env tbl (ds @ ds') libs a
                        = dependencies_loop env tbl ds' libs1 a1"
proof (induction ds arbitrary: libs a)
  case Nil
  then show ?case by auto
next
  case (Cons d ds)
  have "\<not> (\<exists>e. \<forall>ds. dependencies_loop env tbl (d # ds) libs a = Inl e)"
    using Cons.prems by (metis sum.distinct(1))
  moreover have "\<not> (\<exists>a' m. \<forall>ds. dependencies_loop env tbl (d # ds) libs a
                                 = Inr (a', False, Some m))"
    using Cons.prems by (metis Pair_inject sum.inject(2))
  ultimately obtain libs' a' where
    step: "\<And>ds. dependencies_loop env tbl (d # ds) libs a = dependencies_loop env tbl ds libs' a'"
    using dependencies_loop_step [of env tbl d libs a] by blast
  with Cons.prems have "dependencies_loop env tbl ds libs' a' = Inr (a1, True, None)"
    by simp
  from Cons.IH [OF this] obtain libs1 where
    "\<forall>ds'. dependencies_loop env tbl (ds @ ds') libs' a' = dependencies_loop env tbl ds' libs1 a1" ..
  with step have "\<forall>ds'. dependencies_loop env tbl ((d # ds) @ ds') libs a
                        = dependencies_loop env tbl ds' libs1 a1"
    by simp
  then show ?case ..
qed

lemma encode_calldata_shape:
  "encode_calldata env c m a = Inr calldata
   \<Longrightarrow> \<exists>arg_list encoded. w3_encodeABI env (abi c) m arg_list = Inr encoded
        \<and> calldata = [(Some ''_logic'', opt_str (address c)), (Some ''_data'', PStr encoded)]"
  by (auto simp: encode_calldata_def split: option.splits sum.splits)



lemma cannot_be_resolved_truthy: "truthy (Some (cannot_be_resolved p))"
  by (simp add: truthy_def cannot_be_resolved_def)


lemma dependencies_loop_returns:
  assumes "table_keeps P tbl"
    and "(\<exists>d\<in>set ds. dependency_type d = CONSTRUCTOR) \<longrightarrow> args a \<noteq> None"
    and "\<forall>d\<in>set ds. dependency_type d = IMPL
           \<longrightarrow> (\<exists>proxy. load_proxy_encoded env = Inr proxy)
               \<and> (\<forall>c. P c \<longrightarrow> (\<exists>calldata. encode_calldata env c (method_name_d d)
                                                     (method_args d) = Inr calldata))"
  shows "\<exists>r. dependencies_loop env tbl ds libs a = Inr r"
  using assms(2,3)
proof (induction ds arbitrary: libs a)
  case Nil
  show ?case by auto
next
  case (Cons d ds)
  have impl: "\<forall>d\<in>set ds. dependency_type d = IMPL
           \<longrightarrow> (\<exists>proxy. load_proxy_encoded env = Inr proxy)
               \<and> (\<forall>c. P c \<longrightarrow> (\<exists>calldata. encode_calldata env c (method_name_d d)
                                                     (method_args d) = Inr calldata))"
    using Cons.prems(2) by simp
  show ?case
  proof (cases "tbl (Some (parent d))")
    case None
    then show ?thesis by auto
  next
    case (Some p)
    show ?thesis
    proof (cases "contract p")
      case None
      with Some show ?thesis by auto
    next
      case pc: (Some prev_contract)
      with Some assms(1) have P: "P prev_contract"
        by (auto simp: table_keeps_def)
      show ?thesis
      proof (cases "dependency_type d")
        case LIBRARY
        with Cons.prems(1) have
          "(\<exists>d\<in>set ds. dependency_type d = CONSTRUCTOR)
           \<longrightarrow> args (a\<lparr>libraries := Some (AList.update (parent d) (address prev_contract) libs)\<rparr>)
               \<noteq> None"
          by simp
        from Cons.IH [OF this impl] Some pc LIBRARY show ?thesis
          by (simp add: Let_def)
      next
        case CONSTRUCTOR
        with Cons.prems(1) obtain x where x: "args a = Some x" by auto
        have "(\<exists>d'\<in>set ds. dependency_type d' = CONSTRUCTOR)
           \<longrightarrow> args (a\<lparr>args := Some (AList.update (target_arg d)
                                        (opt_str (address prev_contract)) x),
                        libraries := Some libs\<rparr>) \<noteq> None"
          by simp
        from Cons.IH [OF this impl] Some pc CONSTRUCTOR x show ?thesis
          by simp
      next
        case CONTRACT
        with Cons.prems(1) have
          "(\<exists>d\<in>set ds. dependency_type d = CONSTRUCTOR)
           \<longrightarrow> args (a\<lparr>contract := Some prev_contract, libraries := Some libs\<rparr>) \<noteq> None"
          by simp
        from Cons.IH [OF this impl] Some pc CONTRACT show ?thesis
          by simp
      next
        case IMPL
        with Cons.prems(2) P obtain proxy calldata where
          l: "load_proxy_encoded env = Inr proxy"
          and e: "encode_calldata env prev_contract (method_name_d d) (method_args d)
                   = Inr calldata"
          by auto
        have "(\<exists>d'\<in>set ds. dependency_type d' = CONSTRUCTOR)
           \<longrightarrow> args (a\<lparr>impl_contract := Some prev_contract, code := Some proxy,
                        encode := Some False, contract_name := Some SIMBA_PROXY,
                        args := Some calldata, libraries := Some libs\<rparr>) \<noteq> None"
          by simp
        from Cons.IH [OF this impl] Some pc IMPL l e show ?thesis
          by simp
      qed
    qed
  qed
qed

lemma dependencies_loop_action_type:
  "dependencies_loop env tbl ds libs a = Inr (a', b, m) \<Longrightarrow> action_type a' = action_type a"
  by (induction ds arbitrary: libs a)
     (auto simp: Let_def split: option.splits DependencyType.splits sum.splits)

lemma dependencies_loop_keeps:
  "table_keeps P tbl \<Longrightarrow> \<forall>c. contract a = Some c \<longrightarrow> P c
   \<Longrightarrow> dependencies_loop env tbl ds libs a = Inr (a', b, m)
   \<Longrightarrow> \<forall>c. contract a' = Some c \<longrightarrow> P c"
proof (induction ds arbitrary: libs a)
  case Nil
  then show ?case by simp
next
  case (Cons d ds)
  show ?case
  proof (cases "tbl (Some (parent d))")
    case None
    with Cons.prems show ?thesis by simp
  next
    case (Some p)
    show ?thesis
    proof (cases "contract p")
      case None
      with Some Cons.prems show ?thesis by simp
    next
      case pc: (Some prev_contract)
      with Some Cons.prems(1) have P: "P prev_contract"
        by (auto simp: table_keeps_def)
      show ?thesis
      proof (cases "dependency_type d")
        case LIBRARY
        with Some pc Cons.prems(3) have
          "dependencies_loop env tbl ds (AList.update (parent d) (address prev_contract) libs)
             (a\<lparr>libraries := Some (AList.update (parent d) (address prev_contract) libs)\<rparr>)
           = Inr (a', b, m)"
          by (simp add: Let_def)
        from Cons.IH [OF Cons.prems(1) _ this] Cons.prems(2) show ?thesis by simp
      next
        case CONSTRUCTOR
        with Some pc Cons.prems(3) obtain x where
          "dependencies_loop env tbl ds libs
             (a\<lparr>args := Some x, libraries := Some libs\<rparr>) = Inr (a', b, m)"
          by (auto split: option.splits)
        from Cons.IH [OF Cons.prems(1) _ this] Cons.prems(2) show ?thesis by simp
      next
        case CONTRACT
        with Some pc Cons.prems(3) have
          "dependencies_loop env tbl ds libs
             (a\<lparr>contract := Some prev_contract, libraries := Some libs\<rparr>) = Inr (a', b, m)"
          by simp
        from Cons.IH [OF Cons.prems(1) _ this] P show ?thesis by simp
      next
        case IMPL
        with Some pc Cons.prems(3) obtain proxy calldata where
          "dependencies_loop env tbl ds libs
             (a\<lparr>impl_contract := Some prev_contract, code := Some proxy,
                encode := Some False, contract_name := Some SIMBA_PROXY,
                args := Some calldata, libraries := Some libs\<rparr>) = Inr (a', b, m)"
          by (auto split: sum.splits)
        from Cons.IH [OF Cons.prems(1) _ this] Cons.prems(2) show ?thesis by simp
      qed
    qed
  qed
qed

lemma dependencies_loop_contract:
  "contract a \<noteq> None \<or> (\<exists>d\<in>set ds. dependency_type d = CONTRACT)
   \<Longrightarrow> dependencies_loop env tbl ds libs a = Inr (a', True, m)
   \<Longrightarrow> contract a' \<noteq> None"
proof (induction ds arbitrary: libs a)
  case Nil
  then show ?case by simp
next
  case (Cons d ds)
  show ?case
  proof (cases "tbl (Some (parent d))")
    case None
    with Cons.prems show ?thesis by simp
  next
    case (Some p)
    show ?thesis
    proof (cases "contract p")
      case None
      with Some Cons.prems show ?thesis by simp
    next
      case pc: (Some prev_contract)
      show ?thesis
      proof (cases "dependency_type d")
        case LIBRARY
        with Some pc Cons.prems(2) have
          "dependencies_loop env tbl ds (AList.update (parent d) (address prev_contract) libs)
             (a\<lparr>libraries := Some (AList.update (parent d) (address prev_contract) libs)\<rparr>)
           = Inr (a', True, m)"
          by (simp add: Let_def)
        from Cons.IH [OF _ this] Cons.prems(1) LIBRARY show ?thesis by auto
      next
        case CONSTRUCTOR
        with Some pc Cons.prems(2) obtain x where
          "dependencies_loop env tbl ds libs
             (a\<lparr>args := Some x, libraries := Some libs\<rparr>) = Inr (a', True, m)"
          by (auto split: option.splits)
        from Cons.IH [OF _ this] Cons.prems(1) CONSTRUCTOR show ?thesis by auto
      next
        case CONTRACT
        with Some pc Cons.prems(2) have
          "dependencies_loop env tbl ds libs
             (a\<lparr>contract := Some prev_contract, libraries := Some libs\<rparr>) = Inr (a', True, m)"
          by simp
        from Cons.IH [OF _ this] show ?thesis by simp
      next
        case IMPL
        with Some pc Cons.prems(2) obtain proxy calldata where
          "dependencies_loop env tbl ds libs
             (a\<lparr>impl_contract := Some prev_contract, code := Some proxy,
                encode := Some False, contract_name := Some SIMBA_PROXY,
                args := Some calldata, libraries := Some libs\<rparr>) = Inr (a', True, m)"
          by (auto split: sum.splits)
        from Cons.IH [OF _ this] Cons.prems(1) IMPL show ?thesis by auto
      qed
    qed
  qed
qed

section \<open>Lemmas on the validator\<close>

lemma check_deps_parent:
  "check_deps previous ds got = Inr g \<Longrightarrow> d \<in> set ds \<Longrightarrow> parent d \<noteq> [] \<Longrightarrow> Some (parent d) \<in> set previous"
  by (induction ds arbitrary: got) (auto split: if_splits)

lemma check_loop_parent:
  "check_loop k previous as = Inr () \<Longrightarrow> i < length as \<Longrightarrow> dependencies (as ! i) = Some ds
   \<Longrightarrow> d \<in> set ds \<Longrightarrow> parent d \<noteq> []
   \<Longrightarrow> Some (parent d) \<in> set previous \<or> (\<exists>j<i. contract_name (as ! j) = Some (parent d))"
proof (induction as arbitrary: k previous i)
  case Nil
  then show ?case by simp
next
  case (Cons a as)
  from Cons.prems(1) obtain g where
    g: "check_deps previous (case dependencies a of None \<Rightarrow> [] | Some ds \<Rightarrow> ds) False = Inr g"
    and rest: "check_loop (Suc k) (previous @ [contract_name a]) as = Inr ()"
    by (auto simp: Let_def split: if_splits sum.splits)
  show ?case
  proof (cases i)
    case 0
    with Cons.prems g have "Some (parent d) \<in> set previous"
      using check_deps_parent [of previous ds False g d] by simp
    then show ?thesis by simp
  next
    case (Suc i')
    with Cons.prems have "i' < length as" "dependencies (as ! i') = Some ds" by simp_all
    from Cons.IH [OF rest this Cons.prems(4,5)]
    have "Some (parent d) \<in> set (previous @ [contract_name a])
          \<or> (\<exists>j<i'. contract_name (as ! j) = Some (parent d))" .
    then show ?thesis
    proof (elim disjE exE conjE)
      assume "Some (parent d) \<in> set (previous @ [contract_name a])"
      then consider "Some (parent d) \<in> set previous" | "contract_name a = Some (parent d)"
        by auto
      then show ?thesis
      proof cases
        case 1 then show ?thesis by simp
      next
        case 2
        then have "contract_name ((a # as) ! 0) = Some (parent d)" by simp
        then show ?thesis using Suc by blast
      qed
    next
      fix j assume "j < i'" "contract_name (as ! j) = Some (parent d)"
      then have "Suc j < i" "contract_name ((a # as) ! Suc j) = Some (parent d)"
        using Suc by simp_all
      then show ?thesis by blast
    qed
  qed
qed

section \<open>Lemmas on the handlers\<close>

lemma calls_deploy_phase:
  "calls (snd (deploy_phase self c action workflow wd)) = calls wd @ [Call_deploy_contract]"
  by (simp add: deploy_phase_def invoke_def split: prod.splits sum.splits)

lemma calls_invoke: "calls (snd (invoke c f wd)) = calls wd @ [c]"
  by (simp add: invoke_def split: prod.splits)







lemma invoke_returns: "returns f \<Longrightarrow> \<exists>v wd'. invoke c f wd = (Inr v, wd')"
  unfolding returns_def invoke_def
  by (metis (mono_tags, lifting) case_prod_conv)

lemma invoke_result:
  "invoke c f wd = (r, wd') \<Longrightarrow> \<exists>s'. f (platform wd) = (r, s')"
  by (auto simp: invoke_def split: prod.splits)

lemma deploy_phase_returns:
  assumes "executor_returns self"
  shows "\<exists>r wd'. deploy_phase self c a w wd = (Inr r, wd')"
proof -
  from assms have "returns (deploy_contract self c (api_name a) (blockchain w) (storage w)
                              (args a) (app_name w))"
    by (simp add: executor_returns_def)
  from invoke_returns [OF this, of Call_deploy_contract wd] show ?thesis
    by (auto simp: deploy_phase_def)
qed

lemma handle_deploy_contract_returns:
  assumes "executor_returns self"
  shows "\<exists>r wd'. handle_deploy_contract self a w wd = (Inr r, wd')"
proof -
  from assms have "returns (compile_contract self (contract_name a) (code a) (contract_name a)
                              (libraries a) (encode a))"
    by (simp add: executor_returns_def)
  from invoke_returns [OF this, of Call_compile_contract wd] obtain v wd1 where
    "invoke Call_compile_contract
       (compile_contract self (contract_name a) (code a) (contract_name a)
          (libraries a) (encode a)) wd = (Inr v, wd1)" by blast
  then show ?thesis
    using deploy_phase_returns [OF assms]
    by (cases v) (auto simp: handle_deploy_contract_def)
qed

lemma set_proxy_phase_returns:
  assumes "executor_returns self"
  shows "\<exists>r wd'. set_proxy_phase self a w i wd = (Inr r, wd')"
proof -
  from assms have "returns (set_proxy self (w\<lparr>actions := (actions w)[i := a]\<rparr>)
                              (contract a) (impl_contract a))"
    by (simp add: executor_returns_def)
  from invoke_returns [OF this, of Call_set_proxy wd] show ?thesis
    by (auto simp: set_proxy_phase_def)
qed

lemma handle_deploy_proxy_returns:
  assumes "executor_returns self"
  shows "\<exists>r wd'. handle_deploy_proxy self a w i wd = (Inr r, wd')"
proof -
  from handle_deploy_contract_returns [OF assms, of a w wd] obtain r wd1 where
    "handle_deploy_contract self a w wd = (Inr r, wd1)" by blast
  then show ?thesis
    using set_proxy_phase_returns [OF assms]
    by (cases r) (auto simp: handle_deploy_proxy_def)
qed

lemma handle_deploy_library_returns:
  assumes "executor_returns self"
  shows "\<exists>r wd'. handle_deploy_library self a w wd = (Inr r, wd')"
proof -
  have "\<And>a'. \<exists>v wd'. invoke Call_deploy_library
           (deploy_library self (org w) (contract_name a') (code a') (blockchain w)
              (app_name w) (encode a')) wd = (Inr v, wd')"
    using assms by (intro invoke_returns) (simp add: executor_returns_def)
  then show ?thesis
    unfolding handle_deploy_library_def Let_def
    by (smt (verit) case_prod_conv old.prod.exhaust old.sum.simps(6))
qed

lemma handle_methodcall_returns:
  assumes "executor_returns self" and "contract a \<noteq> None"
  shows "\<exists>r wd'. handle_methodcall self a w wd = (Inr r, wd')"
proof -
  from assms(2) obtain c where c: "contract a = Some c" by auto
  from assms(1) have "returns (submit_transaction self (api_name_c c) (method_name a) (args a))"
    by (simp add: executor_returns_def)
  from invoke_returns [OF this, of Call_submit_transaction wd] c show ?thesis
    by (auto simp: handle_methodcall_def)
qed

lemma executor_keeps_deploy_library:
  assumes "executor_keeps P self"
    and "deploy_library self a b c d e f s = (Inr (r, err), s')"
  shows "\<forall>x. r = Some x \<longrightarrow> P x"
proof (intro allI impI)
  fix x assume "r = Some x"
  with assms(2) have eq: "deploy_library self a b c d e f s = (Inr (Some x, err), s')"
    by simp
  note k = assms(1) [unfolded executor_keeps_def]
  from k [THEN conjunct1, rule_format, OF eq] show "P x" .
qed

lemma executor_keeps_compile_contract:
  assumes "executor_keeps P self"
    and "compile_contract self a b c d e s = (Inr (r, err), s')"
  shows "\<forall>x. r = Some x \<longrightarrow> P x"
proof (intro allI impI)
  fix x assume "r = Some x"
  with assms(2) have eq: "compile_contract self a b c d e s = (Inr (Some x, err), s')"
    by simp
  note k = assms(1) [unfolded executor_keeps_def]
  from k [THEN conjunct2, THEN conjunct1, rule_format, OF eq] show "P x" .
qed

lemma executor_keeps_deploy_contract:
  assumes "executor_keeps P self" and "\<forall>x. a = Some x \<longrightarrow> P x"
    and "deploy_contract self a b c d e f s = (Inr (r, err), s')"
  shows "\<forall>x. r = Some x \<longrightarrow> P x"
proof (intro allI impI)
  fix x assume "r = Some x"
  with assms(3) have eq: "deploy_contract self a b c d e f s = (Inr (Some x, err), s')"
    by simp
  note k = assms(1) [unfolded executor_keeps_def]
  from k [THEN conjunct2, THEN conjunct2, rule_format, OF conjI [OF eq assms(2)]]
  show "P x" .
qed

lemma deploy_phase_keeps:
  assumes "executor_keeps P self" and "\<forall>x. c = Some x \<longrightarrow> P x"
    and "deploy_phase self c a w wd = (Inr (a', True), wd')"
  shows "\<forall>x. contract a' = Some x \<longrightarrow> P x"
proof -
  obtain r wd1 where inv: "invoke Call_deploy_contract
             (deploy_contract self c (api_name a) (blockchain w)
                (storage w) (args a) (app_name w)) wd = (r, wd1)"
    by (cases "invoke Call_deploy_contract
             (deploy_contract self c (api_name a) (blockchain w)
                (storage w) (args a) (app_name w)) wd")
  with assms(3) obtain c' err where r: "r = Inr (c', err)" and a': "a' = a\<lparr>contract := c', action_state := Some COMPLETED\<rparr>"
    by (auto simp: deploy_phase_def split: sum.splits if_splits)
  from invoke_result [OF inv] r obtain s' where
    "deploy_contract self c (api_name a) (blockchain w) (storage w) (args a) (app_name w)
       (platform wd) = (Inr (c', err), s')" by blast
  from executor_keeps_deploy_contract [OF assms(1,2) this]
  have "\<forall>x. c' = Some x \<longrightarrow> P x" .
  with a' show ?thesis by simp
qed

lemma handle_deploy_contract_keeps:
  assumes "executor_keeps P self" and "\<forall>x. contract a = Some x \<longrightarrow> P x"
    and "handle_deploy_contract self a w wd = (Inr (a', True), wd')"
  shows "\<forall>x. contract a' = Some x \<longrightarrow> P x"
proof (cases "(case contract a of None \<Rightarrow> True | Some c \<Rightarrow> \<not> truthy (design_id c))
         \<or> action_state a = Some FAILED_COMPILE")
  case False
  with assms(3) have "deploy_phase self (contract a) a w wd = (Inr (a', True), wd')"
    by (simp add: handle_deploy_contract_def)
  from deploy_phase_keeps [OF assms(1,2) this] show ?thesis .
next
  case True
  obtain r wd1 where inv: "invoke Call_compile_contract
                (compile_contract self (contract_name a) (code a)
                   (contract_name a) (libraries a) (encode a)) wd = (r, wd1)"
    by (cases "invoke Call_compile_contract
                (compile_contract self (contract_name a) (code a)
                   (contract_name a) (libraries a) (encode a)) wd")
  with True assms(3) obtain c err where r: "r = Inr (c, err)"
    and d: "deploy_phase self c (a\<lparr>contract := c, action_state := Some COMPILED,
                             error_message := None\<rparr>) w wd1 = (Inr (a', True), wd')"
    by (auto simp: handle_deploy_contract_def split: sum.splits if_splits)
  from invoke_result [OF inv] r obtain s' where
    "compile_contract self (contract_name a) (code a) (contract_name a) (libraries a)
       (encode a) (platform wd) = (Inr (c, err), s')" by blast
  from executor_keeps_compile_contract [OF assms(1) this]
  have "\<forall>x. c = Some x \<longrightarrow> P x" .
  from deploy_phase_keeps [OF assms(1) this d] show ?thesis .
qed

lemma set_proxy_phase_contract:
  "set_proxy_phase self a w i wd = (Inr (a', True), wd') \<Longrightarrow> a' = a"
  by (auto simp: set_proxy_phase_def split: prod.splits sum.splits if_splits)

lemma handle_deploy_proxy_keeps:
  assumes "executor_keeps P self" and "\<forall>x. contract a = Some x \<longrightarrow> P x"
    and "handle_deploy_proxy self a w i wd = (Inr (a', True), wd')"
  shows "\<forall>x. contract a' = Some x \<longrightarrow> P x"
proof (cases "action_state a \<noteq> Some FAILED_SET_PROXY")
  case False
  with assms(3) have "set_proxy_phase self a w i wd = (Inr (a', True), wd')"
    by (simp add: handle_deploy_proxy_def)
  from set_proxy_phase_contract [OF this] assms(2) show ?thesis by simp
next
  case True
  with assms(3) obtain a1 wd1 where
    h: "handle_deploy_contract self a w wd = (Inr (a1, True), wd1)"
    and s: "set_proxy_phase self a1 w i wd1 = (Inr (a', True), wd')"
    by (auto simp: handle_deploy_proxy_def split: prod.splits sum.splits if_splits)
  from set_proxy_phase_contract [OF s] handle_deploy_contract_keeps [OF assms(1,2) h]
  show ?thesis by simp
qed

lemma handle_deploy_library_keeps:
  assumes "executor_keeps P self"
    and "handle_deploy_library self a w wd = (Inr (a', True), wd')"
  shows "\<forall>x. contract a' = Some x \<longrightarrow> P x"
proof -
  define a0 where "a0 = (if contract a \<noteq> None
                    then a\<lparr>action_state := Some INVALID_STATE,
                                 error_message := Some ''Contract already exists''\<rparr>
                    else a)"
  obtain r wd1 where inv: "invoke Call_deploy_library
                (deploy_library self (org w) (contract_name a0) (code a0)
                   (blockchain w) (app_name w) (encode a0)) wd = (r, wd1)"
    by (cases "invoke Call_deploy_library
                (deploy_library self (org w) (contract_name a0) (code a0)
                   (blockchain w) (app_name w) (encode a0)) wd")
  with assms(2) obtain c err where r: "r = Inr (c, err)"
    and a': "a' = a0\<lparr>contract := c, action_state := Some COMPLETED, error_message := None\<rparr>"
    unfolding handle_deploy_library_def Let_def a0_def [symmetric]
    by (auto split: sum.splits if_splits)
  from invoke_result [OF inv] r obtain s' where
    "deploy_library self (org w) (contract_name a0) (code a0) (blockchain w) (app_name w)
       (encode a0) (platform wd) = (Inr (c, err), s')" by blast
  from executor_keeps_deploy_library [OF assms(1) this]
  have "\<forall>x. c = Some x \<longrightarrow> P x" .
  with a' show ?thesis by simp
qed

lemma handle_methodcall_keeps:
  assumes "\<forall>x. contract a = Some x \<longrightarrow> P x"
    and "handle_methodcall self a w wd = (Inr (a', True), wd')"
  shows "\<forall>x. contract a' = Some x \<longrightarrow> P x"
  using assms
  by (auto simp: handle_methodcall_def split: option.splits prod.splits sum.splits if_splits)

section \<open>Lemmas on the driver\<close>








lemma Executor_dependencies_safe:
  assumes "table_keeps P tbl" and "safe_action env P a"
  shows "\<exists>a0 carry_on err. Executor_dependencies env a tbl = Inr (a0, carry_on, err)
           \<and> action_type a0 = action_type a
           \<and> (\<forall>x. contract a0 = Some x \<longrightarrow> P x)
           \<and> (carry_on \<and> action_type a = METHOD_CALL \<longrightarrow> contract a0 \<noteq> None)"
proof (cases "action_state a = Some COMPLETED")
  case True
  with assms(2) show ?thesis
    by (intro exI [of _ a] exI [of _ False] exI [of _ None])
       (simp add: Executor_dependencies_def safe_action_def)
next
  case False
  from assms(2) have
    c: "(\<exists>d\<in>set (deps_of a). dependency_type d = CONSTRUCTOR) \<longrightarrow> args a \<noteq> None"
    and i: "\<forall>d\<in>set (deps_of a). dependency_type d = IMPL
           \<longrightarrow> (\<exists>proxy. load_proxy_encoded env = Inr proxy)
               \<and> (\<forall>c. P c \<longrightarrow> (\<exists>calldata. encode_calldata env c (method_name_d d)
                                                     (method_args d) = Inr calldata))"
    and k: "\<forall>x. contract a = Some x \<longrightarrow> P x"
    and m: "action_type a = METHOD_CALL
           \<longrightarrow> contract a \<noteq> None \<or> (\<exists>d \<in> set (deps_of a). dependency_type d = CONTRACT)"
    by (simp_all add: safe_action_def)
  from dependencies_loop_returns [OF assms(1) c i, of "[]"] obtain a0 carry_on err where
    r: "dependencies_loop env tbl (deps_of a) [] a = Inr (a0, carry_on, err)"
    by (metis prod_cases3)
  have "action_type a0 = action_type a"
    using dependencies_loop_action_type [OF r] .
  moreover have "\<forall>x. contract a0 = Some x \<longrightarrow> P x"
    using dependencies_loop_keeps [OF assms(1) k r] .
  moreover have "carry_on \<and> action_type a = METHOD_CALL \<longrightarrow> contract a0 \<noteq> None"
    using dependencies_loop_contract [of a "deps_of a" env tbl "[]" a0 err] r m by auto
  moreover have "Executor_dependencies env a tbl = Inr (a0, carry_on, err)"
    using False r by (simp add: Executor_dependencies_def deps_of_def)
  ultimately show ?thesis by blast
qed

lemma deploy_step_safe:
  assumes "executor_returns self" and "executor_keeps P self"
    and "table_keeps P (completed w)" and "safe_action env P (actions w ! i)"
  shows "(\<forall>e wd'. deploy_step env self w i wd \<noteq> Raised e wd')
       \<and> (\<forall>a wd'. deploy_step env self w i wd = Promoted a wd'
                   \<longrightarrow> (\<forall>x. contract a = Some x \<longrightarrow> P x))"
proof -
  from Executor_dependencies_safe [OF assms(3,4)] obtain a0 carry_on err where
    r: "Executor_dependencies env (actions w ! i) (completed w) = Inr (a0, carry_on, err)"
    and t: "action_type a0 = action_type (actions w ! i)"
    and k: "\<forall>x. contract a0 = Some x \<longrightarrow> P x"
    and m: "carry_on \<and> action_type (actions w ! i) = METHOD_CALL \<longrightarrow> contract a0 \<noteq> None"
    by blast
  show ?thesis
  proof (cases "truthy err \<or> \<not> carry_on")
    case True
    with r show ?thesis by (auto simp: deploy_step_def Let_def)
  next
    case False
    let ?a = "a0\<lparr>error_message := None\<rparr>"
    let ?w = "w\<lparr>actions := (actions w)[i := ?a]\<rparr>"
    have k': "\<forall>x. contract ?a = Some x \<longrightarrow> P x"
      using k by simp
    show ?thesis
    proof (cases "action_type a0")
      case DEPLOY_LIBRARY
      from handle_deploy_library_returns [OF assms(1), of ?a ?w wd] obtain a' b wd1 where
        h: "handle_deploy_library self ?a ?w wd = (Inr (a', b), wd1)" by auto
      with r False DEPLOY_LIBRARY have
        "deploy_step env self w i wd = (if b then Promoted a' wd1 else Stopped a' wd1)"
        by (simp add: deploy_step_def Let_def)
      with handle_deploy_library_keeps [OF assms(2), of ?a ?w wd a' wd1] h
      show ?thesis by (cases b) auto
    next
      case DEPLOY_CONTRACT
      from handle_deploy_contract_returns [OF assms(1), of ?a ?w wd] obtain a' b wd1 where
        h: "handle_deploy_contract self ?a ?w wd = (Inr (a', b), wd1)" by auto
      with r False DEPLOY_CONTRACT have
        "deploy_step env self w i wd = (if b then Promoted a' wd1 else Stopped a' wd1)"
        by (simp add: deploy_step_def Let_def)
      with handle_deploy_contract_keeps [OF assms(2) k', of ?w wd a' wd1] h
      show ?thesis by (cases b) auto
    next
      case METHOD_CALL
      with m t False have "contract ?a \<noteq> None" by simp
      from handle_methodcall_returns [OF assms(1) this, of ?w wd] obtain a' b wd1 where
        h: "handle_methodcall self ?a ?w wd = (Inr (a', b), wd1)" by auto
      with r False METHOD_CALL have
        "deploy_step env self w i wd = (if b then Promoted a' wd1 else Stopped a' wd1)"
        by (simp add: deploy_step_def Let_def)
      with handle_methodcall_keeps [OF k', of self ?w wd a' wd1] h
      show ?thesis by (cases b) auto
    next
      case DEPLOY_PROXY
      from handle_deploy_proxy_returns [OF assms(1), of ?a ?w i wd] obtain a' b wd1 where
        h: "handle_deploy_proxy self ?a ?w i wd = (Inr (a', b), wd1)" by auto
      with r False DEPLOY_PROXY have
        "deploy_step env self w i wd = (if b then Promoted a' wd1 else Stopped a' wd1)"
        by (simp add: deploy_step_def Let_def)
      with handle_deploy_proxy_keeps [OF assms(2) k', of ?w i wd a' wd1] h
      show ?thesis by (cases b) auto
    qed
  qed
qed

lemma table_keeps_update:
  "table_keeps P tbl \<Longrightarrow> \<forall>x. contract a = Some x \<longrightarrow> P x \<Longrightarrow> table_keeps P (tbl(k \<mapsto> a))"
  by (auto simp: table_keeps_def)

lemma deploy_loop_returns:
  assumes "executor_returns self" and "executor_keeps P self"
    and "table_keeps P (completed w)"
    and "\<forall>a\<in>set (drop i (actions w)). safe_action env P a"
  shows "\<exists>r wd'. deploy_loop env self w i count wd = (Inr r, wd')"
  using assms
proof (induction env self w i count wd rule: deploy_loop.induct)
  case (1 env self w i count wd)
  show ?case
  proof (cases "i < length (actions w)")
    case False
    then show ?thesis by (simp add: deploy_loop.simps)
  next
    case True
    then have "actions w ! i \<in> set (drop i (actions w))"
      by (metis Cons_nth_drop_Suc list.set_intros(1))
    with "1.prems"(4) have safe: "safe_action env P (actions w ! i)" by blast
    note step = deploy_step_safe [OF "1.prems"(1,2,3) safe, of wd]
    have rest: "\<And>a. set (drop (Suc i) ((actions w)[i := a])) \<subseteq> set (drop i (actions w))"
      by (simp add: set_drop_subset_set_drop)
    show ?thesis
    proof (cases "deploy_step env self w i wd")
      case (Raised e wdx)
      with step show ?thesis by blast
    next
      case (Stopped a wdx)
      with True show ?thesis by (simp add: deploy_loop.simps)
    next
      case (Skipped a)
      have "\<forall>b\<in>set (drop (Suc i) (actions (w\<lparr>actions := (actions w)[i := a]\<rparr>))).
              safe_action env P b"
        using rest [of a] "1.prems"(4) by auto
      from "1.IH"(1) [OF True Skipped "1.prems"(1,2) _ this] "1.prems"(3) True Skipped
      show ?thesis by (simp add: deploy_loop.simps)
    next
      case (Promoted a wdx)
      let ?w2 = "w\<lparr>actions := (actions w)[i := a],
                   completed := (completed w)(contract_name a \<mapsto> a)\<rparr>"
      from step Promoted have "\<forall>x. contract a = Some x \<longrightarrow> P x" by blast
      from table_keeps_update [OF "1.prems"(3) this] have
        t: "table_keeps P (completed ?w2)" by simp
      have "\<forall>b\<in>set (drop (Suc i) (actions ?w2)). safe_action env P b"
        using rest [of a] "1.prems"(4) by auto
      from "1.IH"(2) [OF True Promoted "1.prems"(1,2) t this] True Promoted
      show ?thesis by (simp add: deploy_loop.simps)
    qed
  qed
qed

section \<open>The resolver on an action without dependencies\<close>

text \<open>
  C10. An action whose state is not \<^verbatim>\<open>COMPLETED\<close> and whose \<^verbatim>\<open>dependencies\<close> is
  \<^verbatim>\<open>None\<close> or the empty list: the resolver returns \<^verbatim>\<open>(True, None)\<close> and the action
  is what it was, in every field; the assignment to \<^verbatim>\<open>libraries\<close> sits in the loop
  and is not reached.
\<close>

theorem dependencies_no_deps_unchanged:
  assumes "action_state action \<noteq> Some COMPLETED"
    and "dependencies action = None \<or> dependencies action = Some []"
  shows "Executor_dependencies env action tbl = Inr (action, True, None)"
  using assms by (auto simp: Executor_dependencies_def)

text \<open>
  C10 at a method call that carries a contract record and a \<^verbatim>\<open>libraries\<close> mapping
  and has an empty list of dependencies.
\<close>

theorem dependencies_no_deps_unchanged_witness:
  "action_state (call_action\<lparr>dependencies := Some [], contract := Some new_Contract,
                    libraries := Some [(''L'', None)]\<rparr>) \<noteq> Some COMPLETED
   \<and> Executor_dependencies test_env
         (call_action\<lparr>dependencies := Some [], contract := Some new_Contract,
                        libraries := Some [(''L'', None)]\<rparr>) Map.empty
       = Inr (call_action\<lparr>dependencies := Some [], contract := Some new_Contract,
                             libraries := Some [(''L'', None)]\<rparr>, True, None)"
proof -
  let ?a = "call_action\<lparr>dependencies := Some [], contract := Some new_Contract,
                         libraries := Some [(''L'', None)]\<rparr>"
  have h1: "action_state ?a \<noteq> Some COMPLETED"
    by (simp add: sample_defs)
  have h2: "dependencies ?a = None \<or> dependencies ?a = Some []"
    by simp
  show ?thesis
    by (rule conjI [OF h1 dependencies_no_deps_unchanged [OF h1 h2]])
qed

section \<open>A failed deploy phase\<close>

text \<open>
  C2. When \<^verbatim>\<open>deploy_contract\<close> returns an error string, the handler is to set the
  state \<^verbatim>\<open>FAILED_COMPLETE\<close>, record the string in \<^verbatim>\<open>error_message\<close> and return
  \<^verbatim>\<open>(action, False)\<close>. On the sample contract action, with a platform whose
  \<^verbatim>\<open>deploy_contract\<close> reports \<^verbatim>\<open>Could not deploy contract\<close>, the handler compiles,
  sets \<^verbatim>\<open>FAILED_COMPLETE\<close> and returns \<^verbatim>\<open>False\<close>, but the action's
  \<^verbatim>\<open>error_message\<close> is \<^verbatim>\<open>None\<close>: the second assignment erases the string.
\<close>

theorem handle_deploy_contract_erases_error:
  "handle_deploy_contract failing_executor (contract_action ''C'')
     (new_Workflow [contract_action ''C'']) world0
   = (Inr ((contract_action ''C'')
             \<lparr>contract := Some (new_Contract\<lparr>design_id := Some ''design'', abi := Some [],
                                             metadata := Some []\<rparr>),
              action_state := Some FAILED_COMPLETE, error_message := None\<rparr>, False),
      \<lparr>calls = [Call_compile_contract, Call_deploy_contract], platform = 2\<rparr>)"
  by (simp add: sample_defs handler_defs)

section \<open>A proxy whose \<^verbatim>\<open>set_proxy\<close> succeeds on a retry\<close>

text \<open>
  C4. A \<^verbatim>\<open>DEPLOY_PROXY\<close> action whose \<^verbatim>\<open>set_proxy\<close> call succeeds is to leave the
  handler with \<^verbatim>\<open>carry_on\<close> true and the state \<^verbatim>\<open>COMPLETED\<close>, also on a retry
  entered in \<^verbatim>\<open>FAILED_SET_PROXY\<close>. On such a retry the handler calls \<^verbatim>\<open>set_proxy\<close>
  only and returns \<^verbatim>\<open>True\<close>, and the action's state is still
  \<^verbatim>\<open>FAILED_SET_PROXY\<close>.
\<close>

theorem handle_deploy_proxy_retry_keeps_failed_state:
  "handle_deploy_proxy test_executor
     ((proxy_action ''Impl'')\<lparr>action_state := Some FAILED_SET_PROXY,
                               contract := Some new_Contract\<rparr>) (new_Workflow []) 0 world0
   = (Inr ((proxy_action ''Impl'')\<lparr>action_state := Some FAILED_SET_PROXY,
                                     contract := Some new_Contract\<rparr>, True),
      \<lparr>calls = [Call_set_proxy], platform = 1\<rparr>)"
  by (simp add: sample_defs handler_defs)

section \<open>A constructor dependency on an action without \<^verbatim>\<open>args\<close>\<close>

text \<open>
  C7. Resolving a \<^verbatim>\<open>CONSTRUCTOR\<close> dependency on an action whose \<^verbatim>\<open>args\<close> is
  \<^verbatim>\<open>None\<close> is to allocate an empty mapping and store the parent's address in it. The
  resolver does not allocate: with the parent completed and its contract at hand, the
  assignment \<^verbatim>\<open>action.args[dep.target_arg] = ...\<close> raises \<^verbatim>\<open>TypeError\<close>.
\<close>

theorem constructor_dependency_without_args_raises:
  "Executor_dependencies test_env
     ((contract_action ''C'')
        \<lparr>dependencies := Some [(new_Dependency CONSTRUCTOR ''L'')\<lparr>target_arg := Some ''lib''\<rparr>]\<rparr>)
     [Some ''L'' \<mapsto> (library_action ''L'')
        \<lparr>contract := Some (new_Contract\<lparr>address := Some ''0x1''\<rparr>),
         action_state := Some COMPLETED\<rparr>]
   = Inl TypeError"
  by (simp add: sample_defs Executor_dependencies_def)

section \<open>Resolving an \<^verbatim>\<open>IMPL\<close> dependency\<close>



section \<open>Parents precede their dependents\<close>

text \<open>
  C8, as the validator has it. In a plan that \<^verbatim>\<open>Workflow.check\<close> accepts, every
  dependency of the action at position \<open>i\<close> whose \<^verbatim>\<open>parent\<close> is not the empty
  string names the \<^verbatim>\<open>contract_name\<close> of an action at a smaller position. (The
  validator tests \<^verbatim>\<open>dep.parent and dep.parent not in previous\<close>, so an empty
  parent is not looked up.)
\<close>

theorem check_parents_precede:
  assumes "check w = Inr w'" "i < length (actions w)" "dependencies (actions w ! i) = Some ds"
    "d \<in> set ds" "parent d \<noteq> []"
  shows "\<exists>j<i. contract_name (actions w ! j) = Some (parent d)"
proof -
  from assms(1) have "check_loop 0 [] (actions w) = Inr ()"
    by (auto simp: check_def split: if_splits sum.splits)
  from check_loop_parent [OF this assms(2-5)] show ?thesis by simp
qed

text \<open>C8 at the plan of an implementation and its proxy.\<close>

theorem check_parents_precede_witness:
  "check (new_Workflow [contract_action ''Impl'', proxy_action ''Impl''])
     = Inr (new_Workflow [contract_action ''Impl'', proxy_action ''Impl''])
   \<and> (\<exists>j<1. contract_name (actions (new_Workflow [contract_action ''Impl'',
                                                     proxy_action ''Impl'']) ! j)
               = Some ''Impl'')"
proof -
  let ?w = "new_Workflow [contract_action ''Impl'', proxy_action ''Impl'']"
  let ?dep = "(new_Dependency IMPL ''Impl'')\<lparr>method_name_d := Some ''initialize'',
                 method_args := Some [(''symbol'', PStr ''MNT''), (''name'', PStr ''My NFT'')]\<rparr>"
  have h1: "check ?w = Inr ?w"
    by (simp add: check_def sample_defs)
  have h2: "1 < length (actions ?w)"
    by (simp add: sample_defs)
  have h3: "dependencies (actions ?w ! 1) = Some [?dep]"
    by (simp add: sample_defs)
  have h4: "?dep \<in> set [?dep]"
    by simp
  have h5: "parent ?dep \<noteq> []"
    by (simp add: sample_defs)
  from check_parents_precede [OF h1 h2 h3 h4 h5]
  have "\<exists>j<1. contract_name (actions ?w ! j) = Some (parent ?dep)" .
  then have "\<exists>j<1. contract_name (actions ?w ! j) = Some ''Impl''"
    by (simp add: new_Dependency_def)
  with h1 show ?thesis by (rule conjI)
qed

text \<open>
  C8 as the claim states it fails: this plan is accepted, both of its actions pass
  the action validator, its second action depends on the parent \<^verbatim>\<open>""\<close>, and the only
  earlier action is named \<^verbatim>\<open>L\<close>.
\<close>

theorem check_accepts_empty_parent:
  "check (new_Workflow [library_action ''L'',
            (library_action ''M'')\<lparr>dependencies := Some [new_Dependency LIBRARY []]\<rparr>])
     = Inr (new_Workflow [library_action ''L'',
              (library_action ''M'')\<lparr>dependencies := Some [new_Dependency LIBRARY []]\<rparr>])
   \<and> check_by_type (library_action ''L'') = Inr (library_action ''L'')
   \<and> check_by_type
         ((library_action ''M'')\<lparr>dependencies := Some [new_Dependency LIBRARY []]\<rparr>)
       = Inr ((library_action ''M'')\<lparr>dependencies := Some [new_Dependency LIBRARY []]\<rparr>)
   \<and> dependencies (actions (new_Workflow [library_action ''L'',
            (library_action ''M'')\<lparr>dependencies := Some [new_Dependency LIBRARY []]\<rparr>]) ! 1)
       = Some [new_Dependency LIBRARY []]
   \<and> parent (new_Dependency LIBRARY []) = []
   \<and> contract_name (actions (new_Workflow [library_action ''L'',
            (library_action ''M'')\<lparr>dependencies := Some [new_Dependency LIBRARY []]\<rparr>]) ! 0)
       = Some ''L''"
  by (simp add: sample_defs check_def check_by_type_def truthy_def)

section \<open>When \<^verbatim>\<open>handle_deploy_contract\<close> compiles\<close>

text \<open>
  C3, as the handler has it. The calls that \<^verbatim>\<open>handle_deploy_contract\<close> adds to the
  log hold \<^verbatim>\<open>compile_contract\<close> if and only if the action has no contract, or its
  contract's \<^verbatim>\<open>design_id\<close> is \<^verbatim>\<open>None\<close> or the empty string, or its state is
  \<^verbatim>\<open>FAILED_COMPILE\<close>; a retry entered in \<^verbatim>\<open>FAILED_COMPLETE\<close> with a contract whose
  \<^verbatim>\<open>design_id\<close> is a non-empty string calls \<^verbatim>\<open>deploy_contract\<close> and nothing else.
\<close>

theorem handle_deploy_contract_compiles_iff:
  "\<exists>new. calls (snd (handle_deploy_contract self action workflow wd)) = calls wd @ new
     \<and> (Call_compile_contract \<in> set new \<longleftrightarrow>
          (contract action = None
           \<or> (\<exists>c. contract action = Some c \<and> (design_id c = None \<or> design_id c = Some []))
           \<or> action_state action = Some FAILED_COMPILE))
     \<and> (action_state action = Some FAILED_COMPLETE
          \<and> (\<exists>c d. contract action = Some c \<and> design_id c = Some d \<and> d \<noteq> [])
         \<longrightarrow> new = [Call_deploy_contract])"
proof (cases "(case contract action of None \<Rightarrow> True | Some c \<Rightarrow> \<not> truthy (design_id c))
         \<or> action_state action = Some FAILED_COMPILE")
  case True
  obtain r wd1 where inv: "invoke Call_compile_contract
                (compile_contract self (contract_name action) (code action)
                   (contract_name action) (libraries action) (encode action)) wd = (r, wd1)"
    by (cases "invoke Call_compile_contract
                (compile_contract self (contract_name action) (code action)
                   (contract_name action) (libraries action) (encode action)) wd")
  have c1: "calls wd1 = calls wd @ [Call_compile_contract]"
    using calls_invoke [of Call_compile_contract _ wd] inv by (metis snd_conv)
  have "\<exists>rest. calls (snd (handle_deploy_contract self action workflow wd)) = calls wd @ Call_compile_contract # rest"
    using True inv c1
    by (auto simp: handle_deploy_contract_def calls_deploy_phase split: sum.splits)
  then obtain rest where
    "calls (snd (handle_deploy_contract self action workflow wd)) = calls wd @ Call_compile_contract # rest" ..
  moreover have "contract action = None
           \<or> (\<exists>c. contract action = Some c \<and> (design_id c = None \<or> design_id c = Some []))
           \<or> action_state action = Some FAILED_COMPILE"
    using True by (auto simp: truthy_def split: option.splits)
  moreover have "\<not> (action_state action = Some FAILED_COMPLETE
          \<and> (\<exists>c d. contract action = Some c \<and> design_id c = Some d \<and> d \<noteq> []))"
    using True by (auto simp: truthy_def split: option.splits)
  ultimately show ?thesis by (intro exI [of _ "Call_compile_contract # rest"]) simp
next
  case False
  then have "calls (snd (handle_deploy_contract self action workflow wd)) = calls wd @ [Call_deploy_contract]"
    by (simp add: handle_deploy_contract_def calls_deploy_phase)
  moreover have "\<not> (contract action = None
           \<or> (\<exists>c. contract action = Some c \<and> (design_id c = None \<or> design_id c = Some []))
           \<or> action_state action = Some FAILED_COMPILE)"
    using False by (auto simp: truthy_def split: option.splits)
  ultimately show ?thesis by (intro exI [of _ "[Call_deploy_contract]"]) simp
qed

text \<open>
  C3 at a retry of the sample contract action in \<^verbatim>\<open>FAILED_COMPLETE\<close>, compiled
  before with the design \<^verbatim>\<open>design\<close>.
\<close>

theorem handle_deploy_contract_compiles_iff_witness:
  "action_state ((contract_action ''C'')
       \<lparr>contract := Some (new_Contract\<lparr>design_id := Some ''design''\<rparr>),
        action_state := Some FAILED_COMPLETE\<rparr>) = Some FAILED_COMPLETE
   \<and> calls (snd (handle_deploy_contract test_executor
        ((contract_action ''C'')
           \<lparr>contract := Some (new_Contract\<lparr>design_id := Some ''design''\<rparr>),
            action_state := Some FAILED_COMPLETE\<rparr>) (new_Workflow []) world0))
       = calls world0 @ [Call_deploy_contract]"
proof -
  let ?a = "(contract_action ''C'')
       \<lparr>contract := Some (new_Contract\<lparr>design_id := Some ''design''\<rparr>),
        action_state := Some FAILED_COMPLETE\<rparr>"
  have h1: "action_state ?a = Some FAILED_COMPLETE"
    by simp
  have h2: "\<exists>c d. contract ?a = Some c \<and> design_id c = Some d \<and> d \<noteq> []"
    by (simp add: sample_defs)
  from handle_deploy_contract_compiles_iff [of test_executor ?a "new_Workflow []" world0]
  obtain new where
    n: "calls (snd (handle_deploy_contract test_executor ?a (new_Workflow []) world0))
          = calls world0 @ new"
    and i: "action_state ?a = Some FAILED_COMPLETE
            \<and> (\<exists>c d. contract ?a = Some c \<and> design_id c = Some d \<and> d \<noteq> [])
            \<longrightarrow> new = [Call_deploy_contract]"
    by blast
  from i h1 h2 have "new = [Call_deploy_contract]" by blast
  with n have "calls (snd (handle_deploy_contract test_executor ?a (new_Workflow []) world0))
          = calls world0 @ [Call_deploy_contract]" by simp
  with h1 show ?thesis by (rule conjI)
qed

text \<open>
  C3 as the claim states it fails: this action has a contract, the contract has a
  \<^verbatim>\<open>design_id\<close> (the empty string), the state is \<^verbatim>\<open>FAILED_COMPLETE\<close>, and the
  handler calls \<^verbatim>\<open>compile_contract\<close>.
\<close>

theorem handle_deploy_contract_compiles_empty_design_id:
  "contract ((contract_action ''C'')
       \<lparr>contract := Some (new_Contract\<lparr>design_id := Some []\<rparr>),
        action_state := Some FAILED_COMPLETE\<rparr>)
     = Some (new_Contract\<lparr>design_id := Some []\<rparr>)
   \<and> design_id (new_Contract\<lparr>design_id := Some []\<rparr>) = Some []
   \<and> action_state ((contract_action ''C'')
       \<lparr>contract := Some (new_Contract\<lparr>design_id := Some []\<rparr>),
        action_state := Some FAILED_COMPLETE\<rparr>) = Some FAILED_COMPLETE
   \<and> calls (snd (handle_deploy_contract test_executor
        ((contract_action ''C'')
           \<lparr>contract := Some (new_Contract\<lparr>design_id := Some []\<rparr>),
            action_state := Some FAILED_COMPLETE\<rparr>) (new_Workflow []) world0))
       = [Call_compile_contract, Call_deploy_contract]"
  by (simp add: sample_defs handler_defs)

section \<open>A dependency that cannot be resolved\<close>

text \<open>
  C5, as the resolver and the driver have it. Let the action at position \<open>i\<close> not be
  in state \<^verbatim>\<open>COMPLETED\<close>, and let the resolver, having resolved the dependencies
  \<open>ds\<close> before it with the action \<open>a1\<close> as the result, reach a dependency whose
  parent is missing from \<^verbatim>\<open>completed\<close> or is there without a contract record. Then
  the resolver returns \<^verbatim>\<open>False\<close> with the message
  \<^verbatim>\<open>Dependency on contract <parent> cannot be resolved\<close>, and the driver's loop, at
  whatever count, ends here: the action gets the state \<^verbatim>\<open>FAILED_DEPENDENCIES\<close> and
  the message, the count and \<^verbatim>\<open>completed\<close> stay as they were, and no operation is
  called.
\<close>

theorem unresolved_dependency_stops_pass:
  assumes "i < length (actions w)"
    and "action_state (actions w ! i) \<noteq> Some COMPLETED"
    and "dependencies (actions w ! i) = Some (ds @ dep # ds')"
    and "dependencies_loop env (completed w) ds [] (actions w ! i) = Inr (a1, True, None)"
    and "completed w (Some (parent dep)) = None
         \<or> (\<exists>p. completed w (Some (parent dep)) = Some p \<and> contract p = None)"
  shows "Executor_dependencies env (actions w ! i) (completed w)
           = Inr (a1, False, Some (''Dependency on contract '' @ parent dep @ '' cannot be resolved''))
       \<and> deploy_loop env self w i count wd
           = (Inr (w\<lparr>actions := (actions w)
                       [i := a1\<lparr>action_state := Some FAILED_DEPENDENCIES,
                                 error_message := Some (''Dependency on contract '' @ parent dep
                                                        @ '' cannot be resolved'')\<rparr>]\<rparr>, count), wd)"
proof -
  from dependencies_loop_append [OF assms(4)] obtain libs1 where
    app: "\<And>ds'. dependencies_loop env (completed w) (ds @ ds') [] (actions w ! i)
                  = dependencies_loop env (completed w) ds' libs1 a1" by blast
  have "dependencies_loop env (completed w) (dep # ds') libs1 a1
          = Inr (a1, False, Some (cannot_be_resolved (parent dep)))"
    using assms(5) by auto
  then have res: "Executor_dependencies env (actions w ! i) (completed w)
          = Inr (a1, False, Some (cannot_be_resolved (parent dep)))"
    using assms(2,3) app [of "dep # ds'"] by (simp add: Executor_dependencies_def)
  then have "deploy_step env self w i wd
          = Stopped (a1\<lparr>action_state := Some FAILED_DEPENDENCIES,
                         error_message := Some (cannot_be_resolved (parent dep))\<rparr>) wd"
    by (simp add: deploy_step_def cannot_be_resolved_truthy)
  then have "deploy_loop env self w i count wd
          = (Inr (w\<lparr>actions := (actions w)
                      [i := a1\<lparr>action_state := Some FAILED_DEPENDENCIES,
                                error_message := Some (cannot_be_resolved (parent dep))\<rparr>]\<rparr>, count), wd)"
    using assms(1) by (simp add: deploy_loop.simps)
  with res show ?thesis by (simp add: cannot_be_resolved_def)
qed

text \<open>C5 at a library that depends on a library \<^verbatim>\<open>L\<close> nobody deployed.\<close>

theorem unresolved_dependency_stops_pass_witness:
  "Executor_dependencies test_env
     ((library_action ''M'')\<lparr>dependencies := Some [new_Dependency LIBRARY ''L'']\<rparr>) Map.empty
     = Inr ((library_action ''M'')\<lparr>dependencies := Some [new_Dependency LIBRARY ''L'']\<rparr>,
            False, Some ''Dependency on contract L cannot be resolved'')
   \<and> deploy_loop test_env test_executor
       (new_Workflow [(library_action ''M'')
                        \<lparr>dependencies := Some [new_Dependency LIBRARY ''L'']\<rparr>]) 0 0 world0
     = (Inr ((new_Workflow [(library_action ''M'')
                             \<lparr>dependencies := Some [new_Dependency LIBRARY ''L''],
                              action_state := Some FAILED_DEPENDENCIES,
                              error_message :=
                                Some ''Dependency on contract L cannot be resolved''\<rparr>]), 0),
        world0)"
proof -
  let ?m = "(library_action ''M'')\<lparr>dependencies := Some [new_Dependency LIBRARY ''L'']\<rparr>"
  let ?w = "new_Workflow [?m]"
  have h1: "0 < length (actions ?w)"
    by (simp add: sample_defs)
  have h2: "action_state (actions ?w ! 0) \<noteq> Some COMPLETED"
    by (simp add: sample_defs)
  have h3: "dependencies (actions ?w ! 0) = Some ([] @ new_Dependency LIBRARY ''L'' # [])"
    by (simp add: sample_defs)
  have h4: "dependencies_loop test_env (completed ?w) [] [] (actions ?w ! 0)
              = Inr (?m, True, None)"
    by (simp add: sample_defs)
  have h5: "completed ?w (Some (parent (new_Dependency LIBRARY ''L''))) = None
            \<or> (\<exists>p. completed ?w (Some (parent (new_Dependency LIBRARY ''L''))) = Some p
                    \<and> contract p = None)"
    by (simp add: sample_defs)
  from unresolved_dependency_stops_pass [OF h1 h2 h3 h4 h5, of test_executor 0 world0]
  show ?thesis
    by (simp add: new_Workflow_def new_Dependency_def)
qed

text \<open>
  C5 as the claim states it fails: an action in state \<^verbatim>\<open>COMPLETED\<close> with the same
  unresolvable dependency gets \<^verbatim>\<open>(False, None)\<close> from the resolver, and the pass
  leaves it as it was, without \<^verbatim>\<open>FAILED_DEPENDENCIES\<close> and without a message.
\<close>

theorem completed_action_is_not_resolved:
  "Executor_dependencies test_env
      ((library_action ''M'')\<lparr>dependencies := Some [new_Dependency LIBRARY ''L''],
                               action_state := Some COMPLETED\<rparr>) Map.empty
     = Inr ((library_action ''M'')\<lparr>dependencies := Some [new_Dependency LIBRARY ''L''],
                                    action_state := Some COMPLETED\<rparr>, False, None)
   \<and> fst (deploy test_env test_executor
            (new_Workflow [(library_action ''M'')
                             \<lparr>dependencies := Some [new_Dependency LIBRARY ''L''],
                              action_state := Some COMPLETED\<rparr>]) world0)
     = Inr (new_Workflow [(library_action ''M'')
                            \<lparr>dependencies := Some [new_Dependency LIBRARY ''L''],
                             action_state := Some COMPLETED\<rparr>])"
  by (simp add: driver_defs sample_defs truthy_def)

section \<open>When a pass returns, and when it raises\<close>

text \<open>
  The driver catches nothing, so a pass returns a workflow when no turn raises. That
  is so when every operation of the platform yields a pair \<^verbatim>\<open>(value, error)\<close>, the
  platform keeps a property \<open>P\<close> of contract records that the records of the
  completed table have, and every pending action is safe for \<open>P\<close> (above: a method
  call has or is brought a contract record, a \<^verbatim>\<open>CONSTRUCTOR\<close> dependency finds an
  \<^verbatim>\<open>args\<close> mapping, and the proxy source loads and the call data encodes for an
  \<^verbatim>\<open>IMPL\<close> dependency).
\<close>

lemma deploy_returns_when_safe:
  assumes "executor_returns self" and "executor_keeps P self"
    and "table_keeps P (completed w)"
    and "\<forall>a\<in>set (actions w). safe_action env P a"
  shows "\<exists>w' wd'. deploy env self w wd = (Inr w', wd')"
proof -
  from assms(4) have "\<forall>a\<in>set (drop 0 (actions w)). safe_action env P a" by simp
  from deploy_loop_returns [OF assms(1,2,3) this, of 0 wd] obtain r wd' where
    "deploy_loop env self w 0 0 wd = (Inr r, wd')" by blast
  then show ?thesis
    by (cases r) (simp add: deploy_def)
qed

text \<open>
  The plan of an implementation and its proxy on the sample platform is such a
  plan; the property kept is an empty metadata mapping.
\<close>

lemma deploy_returns_on_sample_plan:
  "\<exists>w' wd'. deploy test_env test_executor
              (new_Workflow [contract_action ''Impl'', proxy_action ''Impl'']) world0
            = (Inr w', wd')"
proof -
  let ?P = "\<lambda>c. metadata c = Some []"
  let ?w = "new_Workflow [contract_action ''Impl'', proxy_action ''Impl'']"
  have h1: "executor_returns test_executor"
    by (simp add: executor_returns_def returns_def test_executor_def)
  have h2: "executor_keeps ?P test_executor"
    by (auto simp: executor_keeps_def test_executor_def new_Contract_def)
  have h3: "table_keeps ?P (completed ?w)"
    by (simp add: table_keeps_def new_Workflow_def)
  have enc: "metadata c = Some []
               \<Longrightarrow> \<exists>calldata. encode_calldata test_env c m a = Inr calldata" for c m a
    by (cases m) (simp_all add: encode_calldata_def py_get_def py_iter_def test_env_def)
  have h4: "\<forall>a\<in>set (actions ?w). safe_action test_env ?P a"
    using enc
    by (simp add: safe_action_def deps_of_def load_proxy_encoded_def sample_defs)
  from deploy_returns_when_safe [OF h1 h2 h3 h4, of world0]
  show ?thesis .
qed

text \<open>
  C6. For every workflow \<^verbatim>\<open>deploy\<close> is to return a workflow and to raise nothing,
  every failure being recorded on the failing action, also for a \<^verbatim>\<open>METHOD_CALL\<close>
  action without a contract record. The plan of the one sample method call passes
  the workflow validator and the action validator; the action has no contract record
  and no dependency brings one; and the pass, on a platform all of whose operations
  succeed, raises \<^verbatim>\<open>AttributeError\<close> at \<^verbatim>\<open>action.contract.api_name\<close> before any
  operation is called.
\<close>

theorem deploy_raises_on_method_call_without_contract:
  "check (new_Workflow [call_action]) = Inr (new_Workflow [call_action])
   \<and> check_by_type call_action = Inr call_action
   \<and> contract call_action = None
   \<and> deploy test_env test_executor (new_Workflow [call_action]) world0
       = (Inl AttributeError, world0)"
  by (simp add: driver_defs sample_defs handler_defs check_def check_by_type_def)

section \<open>The postcondition of a pass\<close>




end
